theory Spec2Isabelle
  imports Complex_Main "HOL-Library.Word"
begin

section \<open>Common ground of the sketches\<close>

text \<open>
  The sketches run on an Arduino Uno: \<open>unsigned long\<close> is a 32-bit word, and every
  timestamp comparison \<open>now - last >= interval\<close> is an unsigned subtraction followed by
  an unsigned comparison, which is what \<open>-\<close> and \<open>\<le>\<close> on \<open>32 word\<close> are.
\<close>

type_synonym ulong = "32 word"

text \<open>
  The fixed status lines the modelled functions print on Serial, one constructor per
  line. Lines that only echo sensor values or keys, and the LCD text, are not part of
  the state.
\<close>

datatype serial_line =
    ACCESS_GRANTED
  | ACCESS_DENIED
  | SYSTEM_LOCKED_OUT
  | Lockout_period_ended
  | Entry_cleared
  | System_locked_due_to_inactivity
  | DHT_sensor_read_failed
  | Button_Pressed bool   \<comment> \<open>"Button Pressed! LED: ON/OFF, Buzzer: BEEP"\<close>
  | Mute bool             \<comment> \<open>"Mute: ON/OFF"\<close>

text \<open>
  What every sketch has: the millisecond counter of the board and the Serial output.
  What every pass of \<open>loop()\<close> is given: the time gone by since the pass before.
\<close>

record board =
  clock :: ulong
  serial :: "serial_line list"

record input =
  elapsed :: ulong

text \<open>
  Modelled from the spec: \<open>millis()\<close> and \<open>delay()\<close> belong to the Arduino core, which is
  not part of the repository. The spec's millisecond clock is a 32-bit counter: \<open>millis()\<close>
  reads it, \<open>delay(n)\<close> returns \<open>n\<close> milliseconds later, and the counter wraps around
  at \<open>2 ^ 32\<close>. Code between two delays takes no time of its own; the time between two
  passes of \<open>loop()\<close> is an input (\<open>elapsed\<close>).
\<close>

definition millis :: "'a board_scheme \<Rightarrow> ulong" where
  "millis s = clock s"

definition delay :: "ulong \<Rightarrow> 'a board_scheme \<Rightarrow> 'a board_scheme" where
  "delay n s = s\<lparr>clock := clock s + n\<rparr>"

definition println :: "serial_line \<Rightarrow> 'a board_scheme \<Rightarrow> 'a board_scheme" where
  "println l s = s\<lparr>serial := serial s @ [l]\<rparr>"

text \<open>
  C's integer division truncates towards zero and \<open>%\<close> takes the sign of the dividend;
  HOL's \<open>div\<close> and \<open>mod\<close> round down. The divisors of the sketches are positive constants.
\<close>

definition cdiv :: "int \<Rightarrow> int \<Rightarrow> int" where
  "cdiv a b = (if a < 0 then - ((- a) div b) else a div b)"

definition cmod :: "int \<Rightarrow> int \<Rightarrow> int" where
  "cmod a b = a - b * cdiv a b"

text \<open>
  Modelled from the spec: \<open>map()\<close> is the Arduino core's linear re-mapping, which is not
  part of the repository. The sketch's comment fixes its end points (2 cm gives 100 ms,
  10 cm gives 800 ms); in between it is the core's integer formula
  \<open>(x - in_min) * (out_max - out_min) / (in_max - in_min) + out_min\<close>.
\<close>

definition arduino_map :: "int \<Rightarrow> int \<Rightarrow> int \<Rightarrow> int \<Rightarrow> int \<Rightarrow> int" where
  "arduino_map x in_min in_max out_min out_max =
     cdiv ((x - in_min) * (out_max - out_min)) (in_max - in_min) + out_min"

text \<open>
  A C \<open>float\<close> as far as the sketches look at it: either not-a-number or a number. The
  rounding of binary32 arithmetic is not modelled (numbers are reals); every comparison
  with NaN is false, as in C.
\<close>

datatype cfloat = NaN | Fin real

fun isnan :: "cfloat \<Rightarrow> bool" where
  "isnan NaN = True"
| "isnan (Fin x) = False"

fun flt_less :: "cfloat \<Rightarrow> real \<Rightarrow> bool" where
  "flt_less NaN y = False"
| "flt_less (Fin x) y = (x < y)"

fun flt_greater :: "cfloat \<Rightarrow> real \<Rightarrow> bool" where
  "flt_greater NaN y = False"
| "flt_greater (Fin x) y = (x > y)"

section \<open>Phase 1: LED blink (the phase 1 sketch in unnamed/part\_004)\<close>

record phase1 = board +
  LED_PIN :: bool
  previousBlinkTime :: ulong
  ledState :: bool
  startTime :: ulong
  lastSerialUpdate :: ulong

definition BLINK_INTERVAL :: ulong where "BLINK_INTERVAL = 500"
definition serialUpdateInterval :: ulong where "serialUpdateInterval = 500"

definition blinkLED :: "phase1 \<Rightarrow> phase1" where
  "blinkLED s =
    (let currentTime = millis s
     in if currentTime - previousBlinkTime s \<ge> BLINK_INTERVAL then
          (let s = s\<lparr>ledState := \<not> ledState s\<rparr>;
               s = s\<lparr>LED_PIN := ledState s\<rparr>
           in s\<lparr>previousBlinkTime := currentTime\<rparr>)
        else s)"

text \<open>\<open>loop()\<close> of phase 1; \<open>updateSerial\<close> only prints.\<close>

definition loop1 :: "input \<Rightarrow> phase1 \<Rightarrow> phase1" where
  "loop1 i s =
    (let s = s\<lparr>clock := clock s + elapsed i\<rparr>;
         currentTime = millis s;
         s = blinkLED s;
         s = (if currentTime - lastSerialUpdate s \<ge> serialUpdateInterval
              then s\<lparr>lastSerialUpdate := currentTime\<rparr> else s)
     in delay 10 s)"

text \<open>The globals after \<open>setup()\<close>.\<close>

definition setup1 :: phase1 where
  "setup1 = \<lparr> clock = 0, serial = [], LED_PIN = False, previousBlinkTime = 0,
     ledState = False, startTime = 0, lastSerialUpdate = 0 \<rparr>"

section \<open>Phase 2: button and buzzer (phase2\_button\_buzzer.ino)\<close>

record phase2 = board +
  LED_PIN :: bool
  BUZZER_PIN :: bool
  ledState :: bool
  lastButtonState :: bool
  startTime :: ulong
  lastBeepTime :: ulong
  buzzerActive :: bool

record input2 = input +
  BUTTON_PIN :: bool     \<comment> \<open>\<open>digitalRead(BUTTON_PIN)\<close>: \<open>True\<close> is HIGH, the button is up\<close>

definition BUZZER_BEEP_DURATION :: ulong where "BUZZER_BEEP_DURATION = 200"

definition toggleLED :: "phase2 \<Rightarrow> phase2" where
  "toggleLED s =
    (let s = s\<lparr>ledState := \<not> ledState s\<rparr>;
         s = s\<lparr>LED_PIN := ledState s\<rparr>
     in println (Button_Pressed (ledState s)) s)"

definition triggerBuzzer :: "phase2 \<Rightarrow> phase2" where
  "triggerBuzzer s =
    (let s = s\<lparr>BUZZER_PIN := True\<rparr>;
         s = s\<lparr>buzzerActive := True\<rparr>
     in s\<lparr>lastBeepTime := millis s\<rparr>)"

definition readButton :: "bool \<Rightarrow> phase2 \<Rightarrow> phase2" where
  "readButton pin s =
    (let buttonPressed = (pin = False);
         s = (if buttonPressed \<and> \<not> lastButtonState s then triggerBuzzer (toggleLED s) else s)
     in s\<lparr>lastButtonState := buttonPressed\<rparr>)"

definition handleBuzzer :: "phase2 \<Rightarrow> phase2" where
  "handleBuzzer s =
    (if buzzerActive s \<and> millis s - lastBeepTime s \<ge> BUZZER_BEEP_DURATION
     then s\<lparr>BUZZER_PIN := False, buzzerActive := False\<rparr> else s)"

definition loop2 :: "input2 \<Rightarrow> phase2 \<Rightarrow> phase2" where
  "loop2 i s =
    (let s = s\<lparr>clock := clock s + elapsed i\<rparr>;
         s = readButton (BUTTON_PIN i) s;
         s = handleBuzzer s
     in delay 10 s)"

text \<open>The globals after \<open>setup()\<close>: \<open>lastButtonState\<close> starts as \<open>HIGH\<close>, which is true.\<close>

definition setup2 :: phase2 where
  "setup2 = \<lparr> clock = 0, serial = [], LED_PIN = False, BUZZER_PIN = False,
     ledState = False, lastButtonState = True, startTime = 0, lastBeepTime = 0,
     buzzerActive = False \<rparr>"

fun run2 :: "input2 list \<Rightarrow> phase2 \<Rightarrow> phase2" where
  "run2 [] s = s"
| "run2 (i # is) s = run2 is (loop2 i s)"

section \<open>Phase 3: proximity alarm (the phase 3 sketch in unnamed/part\_006)\<close>

text \<open>
  \<open>executed\<close> lists the periodic tasks whose body \<open>loop()\<close> has entered, most recent
  last: it is the observable the tick rule speaks about. \<open>cathodes\<close> are the levels of
  the pins \<open>CA_1 .. CA_4\<close>, \<open>shiftRegister\<close> the byte last shifted out. \<open>distance\<close> is a
  \<open>long\<close>; \<open>count\<close> and \<open>digits\<close> are 16-bit \<open>int\<close>s.
\<close>

datatype task = Distance_sampling | Display_multiplexing | Buzzer_handling

datatype error = IndexOutOfBounds

record alarm = board +
  executed :: "task list"
  cathodes :: "bool list"
  shiftRegister :: "8 word"
  buzzerPin :: bool
  ledPin :: bool
  count :: int
  digits :: "int list"
  distance :: int
  buzzerState :: bool
  muteEnabled :: bool
  lastButtonState :: bool
  previousDisplayMillis :: ulong
  previousSensorMillis :: ulong
  previousBuzzerMillis :: ulong
  buzzerInterval :: ulong

record input3 = input +
  muteButtonPin :: bool   \<comment> \<open>\<open>digitalRead(muteButtonPin)\<close>: \<open>True\<close> is HIGH, the button is up\<close>
  echoPin :: ulong        \<comment> \<open>\<open>pulseIn(echoPin, HIGH, 30000)\<close>, microseconds\<close>

definition displayInterval :: ulong where "displayInterval = 2"
definition sensorInterval :: ulong where "sensorInterval = 100"

definition numbers :: "8 word list" where
  "numbers = [0xFC, 0x60, 0xDA, 0xF2, 0x66, 0xB6, 0xBE, 0xE0, 0xFE, 0xF6]"

text \<open>The narrowing of a \<open>long\<close> value stored into a 16-bit \<open>int\<close>.\<close>

definition int16 :: "int \<Rightarrow> int" where
  "int16 x = sint (word_of_int x :: 16 word)"

text \<open>
  \<open>measureDistance\<close>: the echo time becomes a \<open>long\<close>, and \<open>duration * 0.0343 / 2\<close> is
  truncated to a \<open>long\<close>; with exact arithmetic that is \<open>duration * 343 / 20000\<close>.
\<close>

definition measureDistance :: "ulong \<Rightarrow> int" where
  "measureDistance pulse =
    (let duration = sint pulse;
         dist = cdiv (duration * 343) 20000
     in if duration = 0 then 0 else dist)"

definition break_number :: "int \<Rightarrow> alarm \<Rightarrow> alarm" where
  "break_number num s =
    s\<lparr>digits := (digits s)
        [0 := int16 (cdiv num 1000),
         1 := int16 (cmod (cdiv num 100) 10),
         2 := int16 (cmod (cdiv num 10) 10),
         3 := int16 (cmod num 10)]\<rparr>"

definition cathode_high :: "alarm \<Rightarrow> alarm" where
  "cathode_high s = s\<lparr>cathodes := [True, True, True, True]\<rparr>"

text \<open>
  \<open>display_number\<close> reads \<open>digits[count]\<close>, \<open>numbers[digits[count]]\<close> and \<open>CAS[count]\<close>;
  an index outside its array is an error of the model.
\<close>

definition display_number :: "alarm \<Rightarrow> error + alarm" where
  "display_number s =
    (let s = cathode_high s
     in if \<not> (0 \<le> count s \<and> nat (count s) < length (digits s) \<and> count s < 4)
        then Inl IndexOutOfBounds
        else
          (let d = digits s ! nat (count s)
           in if \<not> (0 \<le> d \<and> nat d < length numbers) then Inl IndexOutOfBounds
              else
                (let s = s\<lparr>shiftRegister := numbers ! nat d\<rparr>;
                     s = s\<lparr>cathodes := (cathodes s)[nat (count s) := False]\<rparr>;
                     s = s\<lparr>count := count s + 1\<rparr>
                 in Inr (if count s = 4 then s\<lparr>count := 0\<rparr> else s))))"

definition toggleMute :: "alarm \<Rightarrow> alarm" where
  "toggleMute s =
    (let s = s\<lparr>muteEnabled := \<not> muteEnabled s\<rparr>;
         s = (if muteEnabled s then s\<lparr>buzzerPin := False, buzzerState := False\<rparr> else s)
     in println (Mute (muteEnabled s)) s)"

definition readMuteButton :: "bool \<Rightarrow> alarm \<Rightarrow> alarm" where
  "readMuteButton pin s =
    (let buttonPressed = (pin = False);
         s = (if buttonPressed \<and> \<not> lastButtonState s then toggleMute s else s)
     in s\<lparr>lastButtonState := buttonPressed\<rparr>)"

definition handleCarBackupBuzzer :: "alarm \<Rightarrow> alarm" where
  "handleCarBackupBuzzer s =
    (if muteEnabled s then s\<lparr>buzzerState := False, buzzerPin := False\<rparr>
     else if distance s \<le> 10 \<and> distance s \<ge> 2 then
       (let s = s\<lparr>buzzerInterval := word_of_int (arduino_map (distance s) 2 10 100 800)\<rparr>;
            s = (if buzzerInterval s < 100 then s\<lparr>buzzerInterval := 100\<rparr> else s);
            s = s\<lparr>buzzerState := \<not> buzzerState s\<rparr>
        in s\<lparr>buzzerPin := buzzerState s\<rparr>)
     else if distance s < 2 \<and> distance s > 0 then
       s\<lparr>buzzerPin := True, buzzerState := True\<rparr>
     else s\<lparr>buzzerState := False, buzzerPin := False, buzzerInterval := 200\<rparr>)"

text \<open>The body of the distance task in \<open>loop()\<close>, after its timestamp has been set.\<close>

definition sampleDistance :: "ulong \<Rightarrow> alarm \<Rightarrow> alarm" where
  "sampleDistance pulse s =
    (let s = s\<lparr>distance := measureDistance pulse\<rparr>;
         s = (if distance s > 9999 then s\<lparr>distance := 9999\<rparr> else s);
         s = break_number (distance s) s
     in if distance s \<le> 5 then s\<lparr>ledPin := True\<rparr> else s\<lparr>ledPin := False\<rparr>)"

definition loop3 :: "input3 \<Rightarrow> alarm \<Rightarrow> error + alarm" where
  "loop3 i s =
    (let s = s\<lparr>clock := clock s + elapsed i\<rparr>;
         currentMillis = millis s;
         s = readMuteButton (muteButtonPin i) s;
         s = (if currentMillis - previousSensorMillis s \<ge> sensorInterval then
                (let s = s\<lparr>executed := executed s @ [Distance_sampling]\<rparr>;
                     s = s\<lparr>previousSensorMillis := currentMillis\<rparr>
                 in sampleDistance (echoPin i) s)
              else s);
         r = (if currentMillis - previousDisplayMillis s \<ge> displayInterval then
                (let s = s\<lparr>executed := executed s @ [Display_multiplexing]\<rparr>;
                     s = s\<lparr>previousDisplayMillis := currentMillis\<rparr>
                 in display_number s)
              else Inr s)
     in case r of
          Inl e \<Rightarrow> Inl e
        | Inr s \<Rightarrow>
            Inr (if currentMillis - previousBuzzerMillis s \<ge> buzzerInterval s then
                   (let s = s\<lparr>executed := executed s @ [Buzzer_handling]\<rparr>;
                        s = s\<lparr>previousBuzzerMillis := currentMillis\<rparr>
                    in handleCarBackupBuzzer s)
                 else s))"

text \<open>The globals after \<open>setup()\<close>.\<close>

definition setup3 :: alarm where
  "setup3 = \<lparr> clock = 0, serial = [], executed = [],
     cathodes = [True, True, True, True], shiftRegister = 0,
     buzzerPin = False, ledPin = False, count = 0, digits = [0, 0, 0, 0], distance = 0,
     buzzerState = False, muteEnabled = False, lastButtonState = True,
     previousDisplayMillis = 0, previousSensorMillis = 0, previousBuzzerMillis = 0,
     buzzerInterval = 200 \<rparr>"

fun run3 :: "input3 list \<Rightarrow> alarm \<Rightarrow> error + alarm" where
  "run3 [] s = Inr s"
| "run3 (i # is) s = (case loop3 i s of Inl e \<Rightarrow> Inl e | Inr s' \<Rightarrow> run3 is s')"

section \<open>Phase 4: security keypad (phase4\_security\_system.ino)\<close>

text \<open>
  The globals of the sketch and the two LED pins. Its \<open>int\<close> variables are mathematical
  integers: \<open>failedAttempts\<close>, \<open>startupBlinkCount\<close> and \<open>currentDisplayScreen\<close> stay far
  below the 16-bit range.
\<close>

record phase4 = board +
  GREEN_LED_PIN :: bool
  RED_LED_PIN :: bool
  startupComplete :: bool
  startupBlinkCount :: int
  lastStartupBlink :: ulong
  lcdInitialized :: bool
  lcdStartupComplete :: bool
  lcdStartupTime :: ulong
  currentDisplayScreen :: int
  lastDisplayUpdate :: ulong
  temperature :: cfloat
  humidity :: cfloat
  distance :: cfloat
  waterLevel :: int
  sensorDataValid :: bool
  distanceAlert :: bool
  waterAlert :: bool
  temperatureAlert :: bool
  humidityAlert :: bool
  anyAlert :: bool
  lastSensorRead :: ulong
  systemUnlocked :: bool
  enteredPasscode :: string
  lastKeypadActivity :: ulong
  lastSystemActivity :: ulong
  failedAttempts :: int
  systemLockedOut :: bool
  lockoutStartTime :: ulong

text \<open>What one pass of \<open>loop()\<close> reads from the outside world.\<close>

record input4 = input +
  key :: char            \<comment> \<open>\<open>keypad.getKey()\<close>; the zero character is \<open>NO_KEY\<close>\<close>
  dhtTemperature :: cfloat  \<comment> \<open>\<open>dht.readTemperature()\<close>\<close>
  dhtHumidity :: cfloat     \<comment> \<open>\<open>dht.readHumidity()\<close>\<close>
  echo :: int            \<comment> \<open>\<open>pulseIn(ULTRASONIC_ECHO_PIN, HIGH)\<close>, microseconds\<close>
  water :: int           \<comment> \<open>\<open>analogRead(WATER_SENSOR_PIN)\<close>\<close>

definition STARTUP_BLINK_COUNT :: int where "STARTUP_BLINK_COUNT = 3"
definition STARTUP_BLINK_DURATION :: ulong where "STARTUP_BLINK_DURATION = 200"
definition LCD_INIT_DELAY :: ulong where "LCD_INIT_DELAY = 3000"
definition DISPLAY_ROTATION_INTERVAL :: ulong where "DISPLAY_ROTATION_INTERVAL = 3000"
definition SENSOR_READ_INTERVAL :: ulong where "SENSOR_READ_INTERVAL = 1000"
definition KEYPAD_TIMEOUT :: ulong where "KEYPAD_TIMEOUT = 10000"
definition INACTIVITY_TIMEOUT :: ulong where "INACTIVITY_TIMEOUT = 60000"
definition LOCKOUT_DURATION :: ulong where "LOCKOUT_DURATION = 30000"

definition DISTANCE_ALERT_THRESHOLD :: real where "DISTANCE_ALERT_THRESHOLD = 20"
definition WATER_ALERT_THRESHOLD :: int where "WATER_ALERT_THRESHOLD = 500"
definition TEMP_HIGH_THRESHOLD :: real where "TEMP_HIGH_THRESHOLD = 30"
definition TEMP_LOW_THRESHOLD :: real where "TEMP_LOW_THRESHOLD = 10"
definition HUMIDITY_ALERT_THRESHOLD :: real where "HUMIDITY_ALERT_THRESHOLD = 80"

definition DEFAULT_PASSCODE :: string where "DEFAULT_PASSCODE = ''1234*''"
definition MAX_PASSCODE_LENGTH :: nat where "MAX_PASSCODE_LENGTH = 6"
definition MAX_FAILED_ATTEMPTS :: int where "MAX_FAILED_ATTEMPTS = 3"

definition clearEntry :: "'a phase4_scheme \<Rightarrow> 'a phase4_scheme" where
  "clearEntry s = println Entry_cleared (s\<lparr>enteredPasscode := ''''\<rparr>)"

definition grantAccess :: "'a phase4_scheme \<Rightarrow> 'a phase4_scheme" where
  "grantAccess s =
    (let s = println ACCESS_GRANTED s;
         s = s\<lparr>systemUnlocked := True\<rparr>;
         s = s\<lparr>failedAttempts := 0\<rparr>;
         s = s\<lparr>RED_LED_PIN := False\<rparr>;
         s = s\<lparr>GREEN_LED_PIN := True\<rparr>;
         s = delay 1000 s;
         s = s\<lparr>GREEN_LED_PIN := False\<rparr>;
         s = (if lcdInitialized s then delay 2000 s else s)
     in s\<lparr>lastSystemActivity := millis s\<rparr>)"

text \<open>The red LED blinks of \<open>denyAccess\<close>: the body of its \<open>for\<close> loop, run \<open>n\<close> times.\<close>

fun blinkRed :: "nat \<Rightarrow> 'a phase4_scheme \<Rightarrow> 'a phase4_scheme" where
  "blinkRed 0 s = s"
| "blinkRed (Suc n) s =
    (let s = s\<lparr>GREEN_LED_PIN := False\<rparr>;
         s = s\<lparr>RED_LED_PIN := True\<rparr>;
         s = delay 200 s;
         s = s\<lparr>RED_LED_PIN := False\<rparr>;
         s = delay 200 s
     in blinkRed n s)"

definition lockoutSystem :: "'a phase4_scheme \<Rightarrow> 'a phase4_scheme" where
  "lockoutSystem s =
    (let s = println SYSTEM_LOCKED_OUT s;
         s = s\<lparr>systemLockedOut := True\<rparr>;
         s = s\<lparr>lockoutStartTime := millis s\<rparr>;
         s = s\<lparr>GREEN_LED_PIN := False\<rparr>
     in s\<lparr>RED_LED_PIN := True\<rparr>)"

definition denyAccess :: "'a phase4_scheme \<Rightarrow> 'a phase4_scheme" where
  "denyAccess s =
    (let s = println ACCESS_DENIED s;
         s = s\<lparr>failedAttempts := failedAttempts s + 1\<rparr>;
         s = blinkRed 3 s;
         s = (if lcdInitialized s then delay 2000 s else s)
     in if failedAttempts s \<ge> MAX_FAILED_ATTEMPTS then lockoutSystem s else s)"

definition checkPasscode :: "'a phase4_scheme \<Rightarrow> 'a phase4_scheme" where
  "checkPasscode s =
    clearEntry (if enteredPasscode s = DEFAULT_PASSCODE then grantAccess s else denyAccess s)"

text \<open>The last statement of \<open>handleKeypadInput\<close>: a partial entry is dropped after the timeout.\<close>

definition autoClearEntry :: "'a phase4_scheme \<Rightarrow> 'a phase4_scheme" where
  "autoClearEntry s =
    (if enteredPasscode s \<noteq> [] \<and> millis s - lastKeypadActivity s > KEYPAD_TIMEOUT
     then clearEntry s else s)"

text \<open>
  \<open>handleKeypadInput\<close>. The \<open>return\<close> taken during a lockout leaves the function before
  the auto-clear statement; every other path ends in it.
\<close>

definition handleKeypadInput :: "char \<Rightarrow> 'a phase4_scheme \<Rightarrow> 'a phase4_scheme" where
  "handleKeypadInput k s =
    (if k \<noteq> CHR 0x00 then
       (let s = s\<lparr>lastKeypadActivity := millis s\<rparr>;
            s = s\<lparr>lastSystemActivity := millis s\<rparr>
        in if systemLockedOut s then s
           else if k = CHR ''#'' then autoClearEntry (clearEntry s)
           else if k = CHR ''*'' then autoClearEntry (checkPasscode s)
           else if length (enteredPasscode s) < MAX_PASSCODE_LENGTH - 1
                then autoClearEntry (s\<lparr>enteredPasscode := enteredPasscode s @ [k]\<rparr>)
           else autoClearEntry s)
     else autoClearEntry s)"

definition handleLockout :: "'a phase4_scheme \<Rightarrow> 'a phase4_scheme" where
  "handleLockout s =
    (let currentTime = millis s
     in if currentTime - lockoutStartTime s \<ge> LOCKOUT_DURATION then
          (let s = s\<lparr>systemLockedOut := False\<rparr>;
               s = s\<lparr>failedAttempts := 0\<rparr>;
               s = s\<lparr>RED_LED_PIN := False\<rparr>;
               s = println Lockout_period_ended s
           in if lcdInitialized s then delay 2000 s else s)
        else s)"

definition lockSystem :: "phase4 \<Rightarrow> phase4" where
  "lockSystem s =
    (let s = println System_locked_due_to_inactivity s;
         s = s\<lparr>systemUnlocked := False\<rparr>;
         s = clearEntry s;
         s = s\<lparr>GREEN_LED_PIN := False\<rparr>;
         s = s\<lparr>RED_LED_PIN := False\<rparr>
     in if lcdInitialized s then delay 2000 s else s)"

text \<open>
  \<open>readUltrasonicDistance\<close>: the echo time in microseconds times 0.034 / 2, and 999 for a
  reading that is not in (0, 400].
\<close>

definition readUltrasonicDistance :: "int \<Rightarrow> cfloat" where
  "readUltrasonicDistance duration =
    (let d = real_of_int duration * 0.034 / 2
     in if d \<le> 0 \<or> d > 400 then Fin 999 else Fin d)"

definition readAllSensors :: "'b input4_scheme \<Rightarrow> 'a phase4_scheme \<Rightarrow> 'a phase4_scheme" where
  "readAllSensors i s =
    (let newTemp = dhtTemperature i;
         newHumidity = dhtHumidity i;
         s = (if \<not> isnan newTemp \<and> \<not> isnan newHumidity
              then s\<lparr>temperature := newTemp, humidity := newHumidity\<rparr>
              else println DHT_sensor_read_failed s);
         s = s\<lparr>distance := readUltrasonicDistance (echo i)\<rparr>;
         s = s\<lparr>waterLevel := water i\<rparr>
     in s\<lparr>sensorDataValid := True\<rparr>)"

definition checkAlertConditions :: "'a phase4_scheme \<Rightarrow> 'a phase4_scheme" where
  "checkAlertConditions s =
    (let s = s\<lparr>distanceAlert := False, waterAlert := False,
               temperatureAlert := False, humidityAlert := False\<rparr>;
         s = (if flt_less (distance s) DISTANCE_ALERT_THRESHOLD \<and> flt_greater (distance s) 0
              then s\<lparr>distanceAlert := True\<rparr> else s);
         s = (if waterLevel s > WATER_ALERT_THRESHOLD then s\<lparr>waterAlert := True\<rparr> else s);
         s = (if flt_greater (temperature s) TEMP_HIGH_THRESHOLD
                 \<or> flt_less (temperature s) TEMP_LOW_THRESHOLD
              then s\<lparr>temperatureAlert := True\<rparr> else s);
         s = (if flt_greater (humidity s) HUMIDITY_ALERT_THRESHOLD
              then s\<lparr>humidityAlert := True\<rparr> else s)
     in s\<lparr>anyAlert := (distanceAlert s \<or> waterAlert s \<or> temperatureAlert s \<or> humidityAlert s)\<rparr>)"

definition updateStatusLEDs :: "'a phase4_scheme \<Rightarrow> 'a phase4_scheme" where
  "updateStatusLEDs s =
    (if anyAlert s then s\<lparr>GREEN_LED_PIN := False, RED_LED_PIN := True\<rparr>
     else s\<lparr>RED_LED_PIN := False, GREEN_LED_PIN := True\<rparr>)"

definition updateLCDDisplay :: "phase4 \<Rightarrow> phase4" where
  "updateLCDDisplay s =
    (if \<not> lcdInitialized s \<or> \<not> sensorDataValid s then s
     else s\<lparr>currentDisplayScreen := cmod (currentDisplayScreen s + 1) 3\<rparr>)"

definition handleSensorDashboard :: "input4 \<Rightarrow> phase4 \<Rightarrow> phase4" where
  "handleSensorDashboard i s =
    (let currentTime = millis s;
         s = (if currentTime - lastSensorRead s \<ge> SENSOR_READ_INTERVAL
              then (updateStatusLEDs (checkAlertConditions (readAllSensors i s)))
                     \<lparr>lastSensorRead := currentTime\<rparr>
              else s)
     in if currentTime - lastDisplayUpdate s \<ge> DISPLAY_ROTATION_INTERVAL
        then (updateLCDDisplay s)\<lparr>lastDisplayUpdate := currentTime\<rparr>
        else s)"

definition handleSecuritySystem :: "input4 \<Rightarrow> phase4 \<Rightarrow> phase4" where
  "handleSecuritySystem i s =
    (let currentTime = millis s;
         s = handleKeypadInput (key i) s
     in if systemLockedOut s then handleLockout s
        else if systemUnlocked s \<and> currentTime - lastSystemActivity s > INACTIVITY_TIMEOUT
             then lockSystem s
        else if systemUnlocked s then handleSensorDashboard i s
        else s)"

definition blinkStartup :: "'a phase4_scheme \<Rightarrow> 'a phase4_scheme" where
  "blinkStartup s =
    (let currentTime = millis s
     in if currentTime - lastStartupBlink s \<ge> STARTUP_BLINK_DURATION then
          (let s = (if startupBlinkCount s < STARTUP_BLINK_COUNT * 2 then
                      (let s = (if cmod (startupBlinkCount s) 2 = 0
                                then s\<lparr>GREEN_LED_PIN := True, RED_LED_PIN := True\<rparr>
                                else s\<lparr>GREEN_LED_PIN := False, RED_LED_PIN := False\<rparr>)
                       in s\<lparr>startupBlinkCount := startupBlinkCount s + 1\<rparr>)
                    else s\<lparr>startupComplete := True\<rparr>)
           in s\<lparr>lastStartupBlink := currentTime\<rparr>)
        else s)"

definition handleLCDStartup :: "'a phase4_scheme \<Rightarrow> 'a phase4_scheme" where
  "handleLCDStartup s =
    (let currentTime = millis s
     in if currentTime - lcdStartupTime s \<ge> LCD_INIT_DELAY then
          (if \<not> lcdStartupComplete s then s\<lparr>lcdStartupComplete := True\<rparr> else s)
        else s)"

definition loop4 :: "input4 \<Rightarrow> phase4 \<Rightarrow> phase4" where
  "loop4 i s =
    (let s = s\<lparr>clock := clock s + elapsed i\<rparr>;
         s = (if \<not> startupComplete s then blinkStartup s else handleSecuritySystem i s)
     in if lcdInitialized s \<and> \<not> lcdStartupComplete s then handleLCDStartup s else s)"

text \<open>The globals as their initialisers leave them, at power-on.\<close>

definition power_on4 :: phase4 where
  "power_on4 = \<lparr> clock = 0, serial = [], GREEN_LED_PIN = False, RED_LED_PIN = False,
     startupComplete = False, startupBlinkCount = 0, lastStartupBlink = 0,
     lcdInitialized = False, lcdStartupComplete = False, lcdStartupTime = 0,
     currentDisplayScreen = 0, lastDisplayUpdate = 0,
     temperature = Fin 0, humidity = Fin 0, distance = Fin 0, waterLevel = 0,
     sensorDataValid = False, distanceAlert = False, waterAlert = False,
     temperatureAlert = False, humidityAlert = False, anyAlert = False,
     lastSensorRead = 0, systemUnlocked = False, enteredPasscode = '''',
     lastKeypadActivity = 0, lastSystemActivity = 0, failedAttempts = 0,
     systemLockedOut = False, lockoutStartTime = 0 \<rparr>"

definition initializeLCD :: "'a phase4_scheme \<Rightarrow> 'a phase4_scheme" where
  "initializeLCD s =
    (let s = delay 1000 s;
         s = s\<lparr>lcdInitialized := True\<rparr>
     in s\<lparr>lcdStartupTime := millis s\<rparr>)"

definition setup4 :: "phase4 \<Rightarrow> phase4" where
  "setup4 s =
    (let s = s\<lparr>GREEN_LED_PIN := False, RED_LED_PIN := False\<rparr>;
         s = initializeLCD s;
         s = s\<lparr>lastStartupBlink := millis s, lastDisplayUpdate := millis s,
               lastSensorRead := millis s, lastKeypadActivity := millis s,
               lastSystemActivity := millis s\<rparr>
     in s\<lparr>systemUnlocked := False, enteredPasscode := '''', failedAttempts := 0,
           systemLockedOut := False\<rparr>)"

text \<open>A run of the sketch: \<open>loop()\<close> once for every input, in order.\<close>

fun run4 :: "input4 list \<Rightarrow> phase4 \<Rightarrow> phase4" where
  "run4 [] s = s"
| "run4 (i # is) s = run4 is (loop4 i s)"

section \<open>Phase 5: complete system with stepper motor (phase5\_complete\_system.ino)\<close>

text \<open>
  Phase 5 keeps the globals and the security, sensor and start-up functions of phase 4
  word for word and adds the motor and the joystick. \<open>motorTrace\<close> lists what \<open>stepMotor\<close>
  does to the motor, in order and most recent last: every \<open>stepper.step(n)\<close> call and
  every \<open>delayMicroseconds(us)\<close> call. \<open>currentMotorPosition\<close> is a 16-bit \<open>int\<close>: it is
  a word, \<open>++\<close> and \<open>--\<close> wrap.
\<close>

datatype motor_event = Step int | DelayMicroseconds nat

record phase5 = phase4 +
  motorTrace :: "motor_event list"
  motorActive :: bool
  autoMode :: bool
  lastAutoMotorMove :: ulong
  currentMotorPosition :: "16 word"
  motorMoving :: bool
  joystickX :: int
  joystickY :: int
  lastJoystickButtonState :: bool
  lastJoystickRead :: ulong

record input5 = input4 +
  JOYSTICK_X_PIN :: int         \<comment> \<open>\<open>analogRead(JOYSTICK_X_PIN)\<close>\<close>
  JOYSTICK_Y_PIN :: int         \<comment> \<open>\<open>analogRead(JOYSTICK_Y_PIN)\<close>\<close>
  JOYSTICK_BUTTON_PIN :: bool   \<comment> \<open>\<open>digitalRead(JOYSTICK_BUTTON_PIN)\<close>: \<open>True\<close> is HIGH\<close>

definition STEPS_PER_90_DEGREES :: int where "STEPS_PER_90_DEGREES = 1024"
definition AUTO_MOTOR_INTERVAL :: ulong where "AUTO_MOTOR_INTERVAL = 2000"
definition JOYSTICK_CENTER :: int where "JOYSTICK_CENTER = 512"
definition JOYSTICK_THRESHOLD :: int where "JOYSTICK_THRESHOLD = 200"

text \<open>
  Modelled from the spec: \<open>delayMicroseconds()\<close> belongs to the Arduino core, which is not
  part of the repository. It returns \<open>us\<close> microseconds later: the millisecond counter
  moves on by the whole milliseconds in \<open>us\<close>, and the trace keeps the call.
\<close>

definition delayMicroseconds :: "nat \<Rightarrow> phase5 \<Rightarrow> phase5" where
  "delayMicroseconds us s =
    delay (of_nat (us div 1000)) (s\<lparr>motorTrace := motorTrace s @ [DelayMicroseconds us]\<rparr>)"

text \<open>The step shared by the three \<open>for\<close> loops of \<open>stepMotor\<close>, without the delay after it.\<close>

definition singleStep :: "int \<Rightarrow> phase5 \<Rightarrow> phase5" where
  "singleStep direction s =
    (if direction > 0 then
       (let s = s\<lparr>motorTrace := motorTrace s @ [Step 1]\<rparr>
        in s\<lparr>currentMotorPosition := currentMotorPosition s + 1\<rparr>)
     else
       (let s = s\<lparr>motorTrace := motorTrace s @ [Step (- 1)]\<rparr>
        in s\<lparr>currentMotorPosition := currentMotorPosition s - 1\<rparr>))"

text \<open>
  \<open>for (int i = 0; i < n; i++) { step; delayMicroseconds(us); }\<close> from \<open>i\<close> on: the
  acceleration and the deceleration loop wait 2000 microseconds after each step, the
  constant-speed loop 1000.
\<close>

function stepLoop :: "int \<Rightarrow> int \<Rightarrow> int \<Rightarrow> nat \<Rightarrow> phase5 \<Rightarrow> phase5" where
  "stepLoop i n direction us s =
    (if i < n
     then stepLoop (i + 1) n direction us (delayMicroseconds us (singleStep direction s))
     else s)"
  by pat_completeness auto
termination
  by (relation "measure (\<lambda>(i, n, direction, us, s). nat (n - i))") auto

declare stepLoop.simps [simp del]

definition stepMotor :: "int \<Rightarrow> int \<Rightarrow> phase5 \<Rightarrow> phase5" where
  "stepMotor steps direction s =
    (if motorMoving s then s
     else
       (let s = s\<lparr>motorMoving := True\<rparr>;
            accelerationSteps = min (cdiv steps 4) 50;
            decelerationSteps = min (cdiv steps 4) 50;
            constantSteps = steps - accelerationSteps - decelerationSteps;
            s = stepLoop 0 accelerationSteps direction 2000 s;
            s = stepLoop 0 constantSteps direction 1000 s;
            s = stepLoop 0 decelerationSteps direction 2000 s
        in s\<lparr>motorMoving := False\<rparr>))"

definition autoMotorMovement :: "phase5 \<Rightarrow> phase5" where
  "autoMotorMovement s =
    (let currentTime = millis s
     in if currentTime - lastAutoMotorMove s \<ge> AUTO_MOTOR_INTERVAL \<and> \<not> motorMoving s
        then (stepMotor STEPS_PER_90_DEGREES 1 s)\<lparr>lastAutoMotorMove := currentTime\<rparr>
        else s)"

definition manualMotorControl :: "phase5 \<Rightarrow> phase5" where
  "manualMotorControl s =
    (if \<bar>joystickX s - JOYSTICK_CENTER\<bar> > JOYSTICK_THRESHOLD \<and> \<not> motorMoving s then
       (let direction = (if joystickX s > JOYSTICK_CENTER then 1 else - 1);
            steps = arduino_map \<bar>joystickX s - JOYSTICK_CENTER\<bar> JOYSTICK_THRESHOLD 512 10 50
        in stepMotor steps direction s)
     else s)"

definition controlStepperMotor :: "phase5 \<Rightarrow> phase5" where
  "controlStepperMotor s =
    (if \<not> systemUnlocked s then s\<lparr>motorActive := False\<rparr>
     else
       (let s = (if \<not> motorActive s then s\<lparr>motorActive := True\<rparr> else s)
        in if autoMode s then autoMotorMovement s else manualMotorControl s))"

definition readJoystick :: "'b input5_scheme \<Rightarrow> phase5 \<Rightarrow> phase5" where
  "readJoystick i s =
    (let s = s\<lparr>joystickX := JOYSTICK_X_PIN i\<rparr>;
         s = s\<lparr>joystickY := JOYSTICK_Y_PIN i\<rparr>;
         currentButtonState = (\<not> JOYSTICK_BUTTON_PIN i);
         s = (if currentButtonState \<and> \<not> lastJoystickButtonState s then
                (let s = s\<lparr>autoMode := \<not> autoMode s\<rparr>
                 in if lcdInitialized s then delay 1000 s else s)
              else s)
     in s\<lparr>lastJoystickButtonState := currentButtonState\<rparr>)"

definition updateLCDDisplay5 :: "phase5 \<Rightarrow> phase5" where
  "updateLCDDisplay5 s =
    (if \<not> lcdInitialized s \<or> \<not> sensorDataValid s then s
     else s\<lparr>currentDisplayScreen := cmod (currentDisplayScreen s + 1) 4\<rparr>)"

definition handleCompleteDashboard :: "input5 \<Rightarrow> phase5 \<Rightarrow> phase5" where
  "handleCompleteDashboard i s =
    (let currentTime = millis s;
         s = (if currentTime - lastSensorRead s \<ge> SENSOR_READ_INTERVAL
              then (updateStatusLEDs (checkAlertConditions (readAllSensors i s)))
                     \<lparr>lastSensorRead := currentTime\<rparr>
              else s);
         s = (if currentTime - lastJoystickRead s \<ge> 50
              then (readJoystick i s)\<lparr>lastJoystickRead := currentTime\<rparr>
              else s);
         s = controlStepperMotor s
     in if currentTime - lastDisplayUpdate s \<ge> DISPLAY_ROTATION_INTERVAL
        then (updateLCDDisplay5 s)\<lparr>lastDisplayUpdate := currentTime\<rparr>
        else s)"

definition lockSystem5 :: "phase5 \<Rightarrow> phase5" where
  "lockSystem5 s =
    (let s = println System_locked_due_to_inactivity s;
         s = s\<lparr>systemUnlocked := False\<rparr>;
         s = s\<lparr>motorActive := False\<rparr>;
         s = clearEntry s;
         s = s\<lparr>GREEN_LED_PIN := False\<rparr>;
         s = s\<lparr>RED_LED_PIN := False\<rparr>
     in if lcdInitialized s then delay 2000 s else s)"

definition handleCompleteSystem :: "input5 \<Rightarrow> phase5 \<Rightarrow> phase5" where
  "handleCompleteSystem i s =
    (let currentTime = millis s;
         s = handleKeypadInput (key i) s
     in if systemLockedOut s then handleLockout s
        else if systemUnlocked s \<and> currentTime - lastSystemActivity s > INACTIVITY_TIMEOUT
             then lockSystem5 s
        else if systemUnlocked s then handleCompleteDashboard i s
        else s)"

definition loop5 :: "input5 \<Rightarrow> phase5 \<Rightarrow> phase5" where
  "loop5 i s =
    (let s = s\<lparr>clock := clock s + elapsed i\<rparr>;
         s = (if \<not> startupComplete s then blinkStartup s else handleCompleteSystem i s)
     in if lcdInitialized s \<and> \<not> lcdStartupComplete s then handleLCDStartup s else s)"

definition power_on5 :: phase5 where
  "power_on5 = phase4.extend power_on4
     \<lparr> motorTrace = [], motorActive = False, autoMode = True, lastAutoMotorMove = 0,
       currentMotorPosition = 0, motorMoving = False, joystickX = 0, joystickY = 0,
       lastJoystickButtonState = False, lastJoystickRead = 0 \<rparr>"

definition setup5 :: "phase5 \<Rightarrow> phase5" where
  "setup5 s =
    (let s = s\<lparr>GREEN_LED_PIN := False, RED_LED_PIN := False\<rparr>;
         s = initializeLCD s;
         s = s\<lparr>lastStartupBlink := millis s, lastDisplayUpdate := millis s,
               lastSensorRead := millis s, lastKeypadActivity := millis s,
               lastSystemActivity := millis s, lastAutoMotorMove := millis s,
               lastJoystickRead := millis s\<rparr>;
         s = s\<lparr>systemUnlocked := False, enteredPasscode := '''', failedAttempts := 0,
               systemLockedOut := False\<rparr>
     in s\<lparr>motorActive := False, autoMode := True, currentMotorPosition := 0,
           motorMoving := False\<rparr>)"

fun run5 :: "input5 list \<Rightarrow> phase5 \<Rightarrow> phase5" where
  "run5 [] s = s"
| "run5 (i # is) s = run5 is (loop5 i s)"

section \<open>Invariants used in the proofs\<close>

text \<open>
  What every reachable state of the security sketches satisfies: the system is locked,
  the entry holds no asterisk, and "ACCESS GRANTED!" has not been printed.
\<close>

definition locked_inv :: "'a phase4_scheme \<Rightarrow> bool" where
  "locked_inv s \<longleftrightarrow> \<not> systemUnlocked s \<and> CHR ''*'' \<notin> set (enteredPasscode s)
      \<and> ACCESS_GRANTED \<notin> set (serial s)"

text \<open>
  What every reachable state of the proximity alarm satisfies: \<open>count\<close> indexes the four
  digits, and every digit indexes the ten patterns of \<open>numbers\<close>.
\<close>

definition display_ok :: "alarm \<Rightarrow> bool" where
  "display_ok s \<longleftrightarrow> 0 \<le> count s \<and> count s < 4 \<and> length (digits s) = 4
      \<and> (\<forall>d \<in> set (digits s). 0 \<le> d \<and> d \<le> 9)"

definition alarm_ok :: "alarm \<Rightarrow> bool" where
  "alarm_ok s \<longleftrightarrow> display_ok s \<and> 0 \<le> alarm.distance s \<and> alarm.distance s \<le> 9999"

text \<open>
  The three periodic tasks of the proximity alarm's \<open>loop()\<close>, each with its guard, as
  the proofs take the loop apart; \<open>c\<close> is the value of \<open>currentMillis\<close>.
\<close>

definition sensorTask :: "ulong \<Rightarrow> ulong \<Rightarrow> alarm \<Rightarrow> alarm" where
  "sensorTask c pulse s =
    (if c - previousSensorMillis s \<ge> sensorInterval
     then sampleDistance pulse
            (s\<lparr>executed := executed s @ [Distance_sampling], previousSensorMillis := c\<rparr>)
     else s)"

definition displayTask :: "ulong \<Rightarrow> alarm \<Rightarrow> error + alarm" where
  "displayTask c s =
    (if c - previousDisplayMillis s \<ge> displayInterval
     then display_number
            (s\<lparr>executed := executed s @ [Display_multiplexing], previousDisplayMillis := c\<rparr>)
     else Inr s)"

definition buzzerTask :: "ulong \<Rightarrow> alarm \<Rightarrow> alarm" where
  "buzzerTask c s =
    (if c - previousBuzzerMillis s \<ge> buzzerInterval s
     then handleCarBackupBuzzer
            (s\<lparr>executed := executed s @ [Buzzer_handling], previousBuzzerMillis := c\<rparr>)
     else s)"

text \<open>
  The released-to-pressed transitions in a sequence of polls of a button: \<open>prev\<close> tells
  whether the poll before the first one read the button down, the list whether each
  poll does.
\<close>

fun pressed_edges :: "bool \<Rightarrow> bool list \<Rightarrow> nat" where
  "pressed_edges prev [] = 0"
| "pressed_edges prev (p # ps) = (if p \<and> \<not> prev then 1 else 0) + pressed_edges p ps"

text \<open>The arguments of the \<open>stepper.step\<close> calls in a motor trace, in order.\<close>

fun stepArguments :: "motor_event list \<Rightarrow> int list" where
  "stepArguments [] = []"
| "stepArguments (Step n # es) = n # stepArguments es"
| "stepArguments (DelayMicroseconds us # es) = stepArguments es"

section \<open>The passcode can never be entered (C1)\<close>

lemma blinkRed_fields:
  "systemUnlocked (blinkRed n s) = systemUnlocked s"
  "enteredPasscode (blinkRed n s) = enteredPasscode s"
  "serial (blinkRed n s) = serial s"
  "failedAttempts (blinkRed n s) = failedAttempts s"
  "systemLockedOut (blinkRed n s) = systemLockedOut s"
  "lcdInitialized (blinkRed n s) = lcdInitialized s"
  "lockoutStartTime (blinkRed n s) = lockoutStartTime s"
  by (induction n arbitrary: s; simp add: delay_def)+

lemma blinkRed_clock: "clock (blinkRed n s) = clock s + 400 * of_nat n"
  by (induction n arbitrary: s) (simp_all add: delay_def algebra_simps)

lemma locked_inv_stamp [simp]:
  "locked_inv (s\<lparr>lastKeypadActivity := a\<rparr>) = locked_inv s"
  "locked_inv (s\<lparr>lastSystemActivity := b\<rparr>) = locked_inv s"
  "locked_inv (s\<lparr>clock := c\<rparr>) = locked_inv s"
  by (simp_all add: locked_inv_def)

lemma locked_inv_star: "locked_inv s \<Longrightarrow> CHR ''*'' \<notin> set (enteredPasscode s)"
  by (simp add: locked_inv_def)

lemma locked_inv_entry:
  "locked_inv s \<Longrightarrow> CHR ''*'' \<notin> set e \<Longrightarrow> locked_inv (s\<lparr>enteredPasscode := e\<rparr>)"
  by (simp add: locked_inv_def)

lemma clearEntry_inv: "locked_inv s \<Longrightarrow> locked_inv (clearEntry s)"
  by (simp add: locked_inv_def clearEntry_def println_def)

lemma denyAccess_inv: "locked_inv s \<Longrightarrow> locked_inv (denyAccess s)"
  by (simp add: locked_inv_def denyAccess_def lockoutSystem_def println_def Let_def
      blinkRed_fields delay_def millis_def)

lemma checkPasscode_denies:
  "CHR ''*'' \<notin> set (enteredPasscode s) \<Longrightarrow> checkPasscode s = clearEntry (denyAccess s)"
proof -
  assume "CHR ''*'' \<notin> set (enteredPasscode s)"
  then have "enteredPasscode s \<noteq> DEFAULT_PASSCODE"
    by (auto simp: DEFAULT_PASSCODE_def)
  then show ?thesis by (simp add: checkPasscode_def)
qed

lemma checkPasscode_inv: "locked_inv s \<Longrightarrow> locked_inv (checkPasscode s)"
  by (simp add: checkPasscode_denies locked_inv_star clearEntry_inv denyAccess_inv)

lemma autoClearEntry_inv: "locked_inv s \<Longrightarrow> locked_inv (autoClearEntry s)"
  by (simp add: autoClearEntry_def clearEntry_inv)

lemma handleKeypadInput_inv: "locked_inv s \<Longrightarrow> locked_inv (handleKeypadInput k s)"
  by (auto simp add: handleKeypadInput_def Let_def autoClearEntry_inv clearEntry_inv
      checkPasscode_inv locked_inv_entry locked_inv_star)

lemma handleLockout_inv: "locked_inv s \<Longrightarrow> locked_inv (handleLockout s)"
  by (simp add: locked_inv_def handleLockout_def Let_def println_def delay_def)

lemma handleSecuritySystem_inv:
  assumes "locked_inv s"
  shows "locked_inv (handleSecuritySystem i s)"
proof -
  have k: "locked_inv (handleKeypadInput (key i) s)"
    using assms by (rule handleKeypadInput_inv)
  then have "\<not> systemUnlocked (handleKeypadInput (key i) s)"
    by (simp add: locked_inv_def)
  with k show ?thesis
    by (simp add: handleSecuritySystem_def Let_def handleLockout_inv)
qed

lemma handleCompleteSystem_inv:
  assumes "locked_inv s"
  shows "locked_inv (handleCompleteSystem i s)"
proof -
  have k: "locked_inv (handleKeypadInput (key i) s)"
    using assms by (rule handleKeypadInput_inv)
  then have "\<not> systemUnlocked (handleKeypadInput (key i) s)"
    by (simp add: locked_inv_def)
  with k show ?thesis
    by (simp add: handleCompleteSystem_def Let_def handleLockout_inv)
qed

lemma blinkStartup_inv: "locked_inv s \<Longrightarrow> locked_inv (blinkStartup s)"
  by (simp add: locked_inv_def blinkStartup_def Let_def)

lemma handleLCDStartup_inv: "locked_inv s \<Longrightarrow> locked_inv (handleLCDStartup s)"
  by (simp add: locked_inv_def handleLCDStartup_def Let_def)

lemma loop4_inv: "locked_inv s \<Longrightarrow> locked_inv (loop4 i s)"
  by (simp add: loop4_def Let_def blinkStartup_inv handleSecuritySystem_inv
      handleLCDStartup_inv)

lemma loop5_inv: "locked_inv s \<Longrightarrow> locked_inv (loop5 i s)"
  by (simp add: loop5_def Let_def blinkStartup_inv handleCompleteSystem_inv
      handleLCDStartup_inv)

lemma run4_inv: "locked_inv s \<Longrightarrow> locked_inv (run4 is s)"
  by (induction "is" arbitrary: s) (simp_all add: loop4_inv)

lemma run5_inv: "locked_inv s \<Longrightarrow> locked_inv (run5 is s)"
  by (induction "is" arbitrary: s) (simp_all add: loop5_inv)

lemma setup4_inv: "locked_inv (setup4 power_on4)"
  by (simp add: locked_inv_def setup4_def power_on4_def initializeLCD_def delay_def
      millis_def Let_def)

lemma setup5_inv: "locked_inv (setup5 power_on5)"
  by (simp add: locked_inv_def setup5_def power_on5_def power_on4_def phase4.extend_def
      initializeLCD_def delay_def millis_def Let_def)

text \<open>
  C1. In the phase 4 and the phase 5 sketch, whatever the keypad, the sensors and the
  clock deliver in the passes of \<open>loop()\<close> after \<open>setup()\<close>: the system stays locked,
  "ACCESS GRANTED!" (the first statement of \<open>grantAccess\<close>) is never printed, and the
  entry never holds an asterisk, so it differs from the stored passcode \<open>1234*\<close>.
\<close>

theorem C1_passcode_never_accepted:
  "\<not> systemUnlocked (run4 is (setup4 power_on4))
   \<and> ACCESS_GRANTED \<notin> set (serial (run4 is (setup4 power_on4)))
   \<and> CHR ''*'' \<notin> set (enteredPasscode (run4 is (setup4 power_on4)))
   \<and> enteredPasscode (run4 is (setup4 power_on4)) \<noteq> DEFAULT_PASSCODE
   \<and> \<not> systemUnlocked (run5 js (setup5 power_on5))
   \<and> ACCESS_GRANTED \<notin> set (serial (run5 js (setup5 power_on5)))
   \<and> CHR ''*'' \<notin> set (enteredPasscode (run5 js (setup5 power_on5)))
   \<and> enteredPasscode (run5 js (setup5 power_on5)) \<noteq> DEFAULT_PASSCODE"
proof -
  have a: "locked_inv (run4 is (setup4 power_on4))"
    by (rule run4_inv [OF setup4_inv])
  have b: "locked_inv (run5 js (setup5 power_on5))"
    by (rule run5_inv [OF setup5_inv])
  have star: "\<And>e. CHR ''*'' \<notin> set e \<Longrightarrow> e \<noteq> DEFAULT_PASSCODE"
    by (auto simp: DEFAULT_PASSCODE_def)
  from a b show ?thesis
    by (simp add: locked_inv_def star)
qed

section \<open>The lockout state machine (C2)\<close>

lemma denyAccess_fields:
  "failedAttempts (denyAccess s) = failedAttempts s + 1"
  "systemLockedOut (denyAccess s) = (systemLockedOut s \<or> 3 \<le> failedAttempts s + 1)"
  "enteredPasscode (denyAccess s) = enteredPasscode s"
  "systemUnlocked (denyAccess s) = systemUnlocked s"
  "lcdInitialized (denyAccess s) = lcdInitialized s"
  "clock (denyAccess s) = clock s + 1200 + (if lcdInitialized s then 2000 else 0)"
  by (simp_all add: denyAccess_def lockoutSystem_def println_def Let_def blinkRed_fields
      blinkRed_clock delay_def millis_def MAX_FAILED_ATTEMPTS_def)

lemma denyAccess_lockoutStartTime:
  "lockoutStartTime (denyAccess s) =
     (if 3 \<le> failedAttempts s + 1 then clock (denyAccess s) else lockoutStartTime s)"
  by (simp add: denyAccess_def lockoutSystem_def println_def Let_def blinkRed_fields
      blinkRed_clock delay_def millis_def MAX_FAILED_ATTEMPTS_def)

lemma clearEntry_fields:
  "failedAttempts (clearEntry s) = failedAttempts s"
  "systemLockedOut (clearEntry s) = systemLockedOut s"
  "enteredPasscode (clearEntry s) = []"
  "systemUnlocked (clearEntry s) = systemUnlocked s"
  "lockoutStartTime (clearEntry s) = lockoutStartTime s"
  "clock (clearEntry s) = clock s"
  "lcdInitialized (clearEntry s) = lcdInitialized s"
  "lastKeypadActivity (clearEntry s) = lastKeypadActivity s"
  "lastSystemActivity (clearEntry s) = lastSystemActivity s"
  by (simp_all add: clearEntry_def println_def)

lemma autoClearEntry_fields:
  "failedAttempts (autoClearEntry s) = failedAttempts s"
  "systemLockedOut (autoClearEntry s) = systemLockedOut s"
  "systemUnlocked (autoClearEntry s) = systemUnlocked s"
  "lockoutStartTime (autoClearEntry s) = lockoutStartTime s"
  "clock (autoClearEntry s) = clock s"
  "lcdInitialized (autoClearEntry s) = lcdInitialized s"
  "lastKeypadActivity (autoClearEntry s) = lastKeypadActivity s"
  "lastSystemActivity (autoClearEntry s) = lastSystemActivity s"
  by (simp_all add: autoClearEntry_def clearEntry_fields)

lemma autoClearEntry_empty: "enteredPasscode s = [] \<Longrightarrow> autoClearEntry s = s"
  by (simp add: autoClearEntry_def)

lemma grantAccess_fields:
  "failedAttempts (grantAccess s) = 0"
  "systemUnlocked (grantAccess s) = True"
  "systemLockedOut (grantAccess s) = systemLockedOut s"
  "clock (grantAccess s) = clock s + 1000 + (if lcdInitialized s then 2000 else 0)"
  by (simp_all add: grantAccess_def println_def Let_def delay_def millis_def)

text \<open>A failed confirmation: the asterisk key on an entry that is not the passcode.\<close>

lemma star_key_wrong_entry:
  assumes "\<not> systemLockedOut s" and "enteredPasscode s \<noteq> DEFAULT_PASSCODE"
  shows "handleKeypadInput (CHR ''*'') s =
           clearEntry (denyAccess (s\<lparr>lastKeypadActivity := millis s,
                                      lastSystemActivity := millis s\<rparr>))"
  using assms
  by (simp add: handleKeypadInput_def Let_def checkPasscode_def millis_def
      autoClearEntry_empty clearEntry_fields)

lemma star_key_right_entry:
  assumes "\<not> systemLockedOut s" and "enteredPasscode s = DEFAULT_PASSCODE"
  shows "handleKeypadInput (CHR ''*'') s =
           clearEntry (grantAccess (s\<lparr>lastKeypadActivity := millis s,
                                       lastSystemActivity := millis s\<rparr>))"
  using assms
  by (simp add: handleKeypadInput_def Let_def checkPasscode_def millis_def
      autoClearEntry_empty clearEntry_fields)

lemma key_during_lockout:
  assumes "systemLockedOut s" and "k \<noteq> CHR 0x00"
  shows "handleKeypadInput k s = s\<lparr>lastKeypadActivity := millis s,
                                    lastSystemActivity := millis s\<rparr>"
  using assms by (simp add: handleKeypadInput_def Let_def millis_def)

lemma other_key_counter:
  assumes "k \<noteq> CHR ''*''"
  shows "failedAttempts (handleKeypadInput k s) = failedAttempts s
       \<and> systemLockedOut (handleKeypadInput k s) = systemLockedOut s"
  using assms
  by (simp add: handleKeypadInput_def Let_def autoClearEntry_fields clearEntry_fields)

lemma handleLockout_expired:
  assumes "LOCKOUT_DURATION \<le> millis s - lockoutStartTime s"
  shows "\<not> systemLockedOut (handleLockout s) \<and> failedAttempts (handleLockout s) = 0"
  using assms by (simp add: handleLockout_def Let_def println_def delay_def)

lemma handleLockout_pending:
  assumes "\<not> LOCKOUT_DURATION \<le> millis s - lockoutStartTime s"
  shows "handleLockout s = s"
  using assms by (simp add: handleLockout_def Let_def)

lemma handleKeypadInput_during_lockout:
  assumes "systemLockedOut s"
  shows "systemLockedOut (handleKeypadInput k s)
       \<and> lockoutStartTime (handleKeypadInput k s) = lockoutStartTime s
       \<and> millis (handleKeypadInput k s) = millis s"
  using assms
  by (simp add: handleKeypadInput_def Let_def autoClearEntry_fields millis_def)

lemma handleSecuritySystem_lockout_expired:
  assumes "systemLockedOut s" and "millis s = lockoutStartTime s + d" and "30000 \<le> d"
  shows "\<not> systemLockedOut (handleSecuritySystem i s)
       \<and> failedAttempts (handleSecuritySystem i s) = 0"
proof -
  let ?t = "handleKeypadInput (key i) s"
  have t: "systemLockedOut ?t" "lockoutStartTime ?t = lockoutStartTime s" "millis ?t = millis s"
    using handleKeypadInput_during_lockout [OF assms(1)] by simp_all
  have "LOCKOUT_DURATION \<le> millis ?t - lockoutStartTime ?t"
    using assms(2,3) t by (simp add: LOCKOUT_DURATION_def)
  then have "\<not> systemLockedOut (handleLockout ?t) \<and> failedAttempts (handleLockout ?t) = 0"
    by (rule handleLockout_expired)
  with t(1) show ?thesis by (simp add: handleSecuritySystem_def Let_def)
qed

lemma handleSecuritySystem_lockout_pending:
  assumes "systemLockedOut s" and "millis s = lockoutStartTime s + d" and "d < 30000"
  shows "systemLockedOut (handleSecuritySystem i s)
       \<and> failedAttempts (handleSecuritySystem i s) = failedAttempts s"
proof -
  let ?t = "handleKeypadInput (key i) s"
  have t: "systemLockedOut ?t" "lockoutStartTime ?t = lockoutStartTime s" "millis ?t = millis s"
    using handleKeypadInput_during_lockout [OF assms(1)] by simp_all
  have "\<not> LOCKOUT_DURATION \<le> millis ?t - lockoutStartTime ?t"
    using assms(2,3) t by (simp add: LOCKOUT_DURATION_def not_le)
  then have "handleLockout ?t = ?t"
    by (rule handleLockout_pending)
  moreover have "failedAttempts ?t = failedAttempts s"
    using assms(1)
    by (simp add: handleKeypadInput_def Let_def autoClearEntry_fields)
  ultimately show ?thesis using t(1) by (simp add: handleSecuritySystem_def Let_def)
qed

lemma handleSecuritySystem_third_failure:
  assumes "\<not> systemLockedOut s" and "enteredPasscode s \<noteq> DEFAULT_PASSCODE"
    and "failedAttempts s = 2" and "key i = CHR ''*''"
  shows "systemLockedOut (handleSecuritySystem i s)"
proof -
  let ?t = "handleKeypadInput (key i) s"
  have l: "systemLockedOut ?t" and st: "lockoutStartTime ?t = millis ?t"
    using assms
    by (simp_all add: star_key_wrong_entry clearEntry_fields denyAccess_fields
        denyAccess_lockoutStartTime millis_def)
  have "\<not> LOCKOUT_DURATION \<le> millis ?t - lockoutStartTime ?t"
    using st by (simp add: LOCKOUT_DURATION_def)
  then have "handleLockout ?t = ?t" by (rule handleLockout_pending)
  with l show ?thesis by (simp add: handleSecuritySystem_def Let_def)
qed

text \<open>
  C2. For a state \<open>s\<close> of the security state machine (phase 4 and, with the same
  functions, phase 5), a key \<open>k\<close> and a time \<open>d\<close> since the lockout began:
  \<^item> a failed confirmation (the asterisk key on an entry that is not the passcode, outside
    a lockout) adds one to \<open>failedAttempts\<close>, and the system is locked out afterwards
    exactly when that was the third failure since the counter was last 0; the lockout
    begins at the time \<open>denyAccess\<close> returns;
  \<^item> any other key leaves the counter and the lockout flag alone, so the failures counted
    are consecutive ones;
  \<^item> during a lockout a key changes neither the entry nor the counter nor the flag;
  \<^item> \<open>handleLockout\<close>, \<open>d\<close> milliseconds after the lockout began, ends the lockout and
    sets the counter to 0 if \<open>d \<ge> 30000\<close>, and changes nothing if \<open>d < 30000\<close>;
  \<^item> a successful confirmation sets the counter to 0;
  \<^item> in a pass of the phase 4 loop body \<open>handleSecuritySystem\<close>, the third failure leaves
    the system locked out, a pass less than 30000 ms into the lockout keeps it locked out
    whatever key is pressed, and a pass 30000 ms or more into it ends the lockout with
    the counter at 0.
\<close>

theorem C2_lockout_state_machine:
  fixes s :: "'a phase4_scheme" and p :: phase4
  shows
  "(\<not> systemLockedOut s \<and> enteredPasscode s \<noteq> DEFAULT_PASSCODE \<longrightarrow>
      failedAttempts (handleKeypadInput (CHR ''*'') s) = failedAttempts s + 1
    \<and> (systemLockedOut (handleKeypadInput (CHR ''*'') s) \<longleftrightarrow> 3 \<le> failedAttempts s + 1)
    \<and> (3 \<le> failedAttempts s + 1 \<longrightarrow>
          lockoutStartTime (handleKeypadInput (CHR ''*'') s)
            = millis (handleKeypadInput (CHR ''*'') s)))
 \<and> (k \<noteq> CHR ''*'' \<longrightarrow>
      failedAttempts (handleKeypadInput k s) = failedAttempts s
    \<and> systemLockedOut (handleKeypadInput k s) = systemLockedOut s)
 \<and> (systemLockedOut s \<and> k \<noteq> CHR 0x00 \<longrightarrow>
      enteredPasscode (handleKeypadInput k s) = enteredPasscode s
    \<and> failedAttempts (handleKeypadInput k s) = failedAttempts s
    \<and> systemLockedOut (handleKeypadInput k s))
 \<and> (systemLockedOut s \<and> millis s = lockoutStartTime s + d \<and> 30000 \<le> d \<longrightarrow>
      \<not> systemLockedOut (handleLockout s) \<and> failedAttempts (handleLockout s) = 0)
 \<and> (systemLockedOut s \<and> millis s = lockoutStartTime s + d \<and> d < 30000 \<longrightarrow>
      handleLockout s = s)
 \<and> (\<not> systemLockedOut s \<and> enteredPasscode s = DEFAULT_PASSCODE \<longrightarrow>
      failedAttempts (handleKeypadInput (CHR ''*'') s) = 0)
 \<and> (\<not> systemLockedOut p \<and> enteredPasscode p \<noteq> DEFAULT_PASSCODE \<and> failedAttempts p = 2
      \<and> key i = CHR ''*'' \<longrightarrow> systemLockedOut (handleSecuritySystem i p))
 \<and> (systemLockedOut p \<and> millis p = lockoutStartTime p + d \<and> d < 30000 \<longrightarrow>
      systemLockedOut (handleSecuritySystem i p)
    \<and> failedAttempts (handleSecuritySystem i p) = failedAttempts p)
 \<and> (systemLockedOut p \<and> millis p = lockoutStartTime p + d \<and> 30000 \<le> d \<longrightarrow>
      \<not> systemLockedOut (handleSecuritySystem i p)
    \<and> failedAttempts (handleSecuritySystem i p) = 0)"
proof -
  have p1: "failedAttempts (handleKeypadInput (CHR ''*'') s) = failedAttempts s + 1
      \<and> (systemLockedOut (handleKeypadInput (CHR ''*'') s) \<longleftrightarrow> 3 \<le> failedAttempts s + 1)
      \<and> (3 \<le> failedAttempts s + 1 \<longrightarrow>
            lockoutStartTime (handleKeypadInput (CHR ''*'') s)
              = millis (handleKeypadInput (CHR ''*'') s))"
    if "\<not> systemLockedOut s" and "enteredPasscode s \<noteq> DEFAULT_PASSCODE"
    using that
    by (simp add: star_key_wrong_entry clearEntry_fields denyAccess_fields
        denyAccess_lockoutStartTime millis_def)
  have p2: "failedAttempts (handleKeypadInput k s) = failedAttempts s
      \<and> systemLockedOut (handleKeypadInput k s) = systemLockedOut s"
    if "k \<noteq> CHR ''*''"
    using that by (rule other_key_counter)
  have p3: "enteredPasscode (handleKeypadInput k s) = enteredPasscode s
      \<and> failedAttempts (handleKeypadInput k s) = failedAttempts s
      \<and> systemLockedOut (handleKeypadInput k s)"
    if "systemLockedOut s" and "k \<noteq> CHR 0x00"
    using that by (simp add: key_during_lockout)
  have p4: "\<not> systemLockedOut (handleLockout s) \<and> failedAttempts (handleLockout s) = 0"
    if "millis s = lockoutStartTime s + d" and "30000 \<le> d"
    using that by (intro handleLockout_expired) (simp add: LOCKOUT_DURATION_def)
  have p5: "handleLockout s = s"
    if "millis s = lockoutStartTime s + d" and "d < 30000"
    using that by (intro handleLockout_pending) (simp add: LOCKOUT_DURATION_def not_le)
  have p6: "failedAttempts (handleKeypadInput (CHR ''*'') s) = 0"
    if "\<not> systemLockedOut s" and "enteredPasscode s = DEFAULT_PASSCODE"
    using that by (simp add: star_key_right_entry clearEntry_fields grantAccess_fields)
  note p7 = handleSecuritySystem_third_failure [of p i]
    and p8 = handleSecuritySystem_lockout_pending [of p d i]
    and p9 = handleSecuritySystem_lockout_expired [of p d i]
  from p1 p2 p3 p4 p5 p6 p7 p8 p9 show ?thesis by blast
qed

text \<open>
  The theorem at work: two failures on record and a third asterisk, a key during the
  lockout that follows, the lockout 29999 ms and 30000 ms old, and the stored passcode
  forced into the entry.
\<close>

theorem C2_lockout_state_machine_witness:
  "\<not> systemLockedOut ((setup4 power_on4)\<lparr>failedAttempts := 2\<rparr>)
 \<and> enteredPasscode ((setup4 power_on4)\<lparr>failedAttempts := 2\<rparr>) \<noteq> DEFAULT_PASSCODE
 \<and> failedAttempts (handleKeypadInput (CHR ''*'') ((setup4 power_on4)\<lparr>failedAttempts := 2\<rparr>)) = 3
 \<and> systemLockedOut (handleKeypadInput (CHR ''*'') ((setup4 power_on4)\<lparr>failedAttempts := 2\<rparr>))
 \<and> systemLockedOut
      (handleSecuritySystem \<lparr>elapsed = 0, key = CHR ''*'', dhtTemperature = NaN, dhtHumidity = NaN,
         echo = 0, water = 0\<rparr> ((setup4 power_on4)\<lparr>failedAttempts := 2\<rparr>))
 \<and> enteredPasscode (handleKeypadInput (CHR ''7'')
        ((setup4 power_on4)\<lparr>systemLockedOut := True, enteredPasscode := ''12''\<rparr>)) = ''12''
 \<and> handleLockout ((setup4 power_on4)\<lparr>systemLockedOut := True, lockoutStartTime := 1000,
        clock := 30999\<rparr>)
      = (setup4 power_on4)\<lparr>systemLockedOut := True, lockoutStartTime := 1000, clock := 30999\<rparr>
 \<and> \<not> systemLockedOut (handleLockout ((setup4 power_on4)\<lparr>systemLockedOut := True,
        failedAttempts := 3, lockoutStartTime := 1000, clock := 31000\<rparr>))
 \<and> failedAttempts (handleLockout ((setup4 power_on4)\<lparr>systemLockedOut := True,
        failedAttempts := 3, lockoutStartTime := 1000, clock := 31000\<rparr>)) = 0
 \<and> failedAttempts (handleKeypadInput (CHR ''*'')
        ((setup4 power_on4)\<lparr>failedAttempts := 2, enteredPasscode := ''1234*''\<rparr>)) = 0"
proof -
  let ?i = "\<lparr>elapsed = 0, key = CHR ''*'', dhtTemperature = NaN, dhtHumidity = NaN,
             echo = 0, water = 0\<rparr>"
  let ?a = "(setup4 power_on4)\<lparr>failedAttempts := 2\<rparr>"
  let ?b = "(setup4 power_on4)\<lparr>systemLockedOut := True, enteredPasscode := ''12''\<rparr>"
  let ?c = "(setup4 power_on4)\<lparr>systemLockedOut := True, lockoutStartTime := 1000,
              clock := 30999\<rparr>"
  let ?d = "(setup4 power_on4)\<lparr>systemLockedOut := True, failedAttempts := 3,
              lockoutStartTime := 1000, clock := 31000\<rparr>"
  let ?e = "(setup4 power_on4)\<lparr>failedAttempts := 2, enteredPasscode := ''1234*''\<rparr>"
  have su: "\<not> systemLockedOut (setup4 power_on4)" "enteredPasscode (setup4 power_on4) = []"
    by (simp_all add: setup4_def power_on4_def initializeLCD_def delay_def millis_def Let_def)
  have a: "\<not> systemLockedOut ?a" "enteredPasscode ?a \<noteq> DEFAULT_PASSCODE"
    "failedAttempts ?a = 2" "key ?i = CHR ''*''"
    using su by (simp_all add: DEFAULT_PASSCODE_def)
  have b: "systemLockedOut ?b" "CHR ''7'' \<noteq> CHR 0x00" "enteredPasscode ?b = ''12''"
    by simp_all
  have c: "systemLockedOut ?c" "millis ?c = lockoutStartTime ?c + 29999" "(29999 :: ulong) < 30000"
    by (simp_all add: millis_def)
  have d: "systemLockedOut ?d" "millis ?d = lockoutStartTime ?d + 30000" "(30000 :: ulong) \<le> 30000"
    by (simp_all add: millis_def)
  have e: "\<not> systemLockedOut ?e" "enteredPasscode ?e = DEFAULT_PASSCODE"
    using su by (simp_all add: DEFAULT_PASSCODE_def)
  show ?thesis
    using a b c d e
      C2_lockout_state_machine [of ?a "CHR ''7''" 0 ?a ?i]
      C2_lockout_state_machine [of ?b "CHR ''7''" 0 ?a ?i]
      C2_lockout_state_machine [of ?c "CHR ''7''" 29999 ?a ?i]
      C2_lockout_state_machine [of ?d "CHR ''7''" 30000 ?a ?i]
      C2_lockout_state_machine [of ?e "CHR ''7''" 0 ?a ?i]
    by simp
qed

section \<open>A failed DHT read is skipped and retried (C6)\<close>

lemma readAllSensors_failed:
  assumes "isnan (dhtTemperature i) \<or> isnan (dhtHumidity i)"
  shows "readAllSensors i s =
           (println DHT_sensor_read_failed s)
             \<lparr>distance := readUltrasonicDistance (echo i), waterLevel := water i,
              sensorDataValid := True\<rparr>"
  using assms by (auto simp add: readAllSensors_def Let_def println_def)

lemma readAllSensors_ok:
  assumes "\<not> isnan (dhtTemperature i)" and "\<not> isnan (dhtHumidity i)"
  shows "readAllSensors i s =
           s\<lparr>temperature := dhtTemperature i, humidity := dhtHumidity i,
             distance := readUltrasonicDistance (echo i), waterLevel := water i,
             sensorDataValid := True\<rparr>"
  using assms by (simp add: readAllSensors_def Let_def)

lemma checkAlertConditions_fields:
  "temperature (checkAlertConditions s) = temperature s"
  "humidity (checkAlertConditions s) = humidity s"
  "distance (checkAlertConditions s) = distance s"
  "waterLevel (checkAlertConditions s) = waterLevel s"
  "clock (checkAlertConditions s) = clock s"
  "lastSensorRead (checkAlertConditions s) = lastSensorRead s"
  "lastDisplayUpdate (checkAlertConditions s) = lastDisplayUpdate s"
  by (simp_all add: checkAlertConditions_def Let_def)

lemma updateStatusLEDs_fields:
  "temperature (updateStatusLEDs s) = temperature s"
  "humidity (updateStatusLEDs s) = humidity s"
  "distance (updateStatusLEDs s) = distance s"
  "waterLevel (updateStatusLEDs s) = waterLevel s"
  "clock (updateStatusLEDs s) = clock s"
  "lastSensorRead (updateStatusLEDs s) = lastSensorRead s"
  "lastDisplayUpdate (updateStatusLEDs s) = lastDisplayUpdate s"
  by (simp_all add: updateStatusLEDs_def)

lemma updateLCDDisplay_fields:
  "temperature (updateLCDDisplay s) = temperature s"
  "humidity (updateLCDDisplay s) = humidity s"
  "distance (updateLCDDisplay s) = distance s"
  "waterLevel (updateLCDDisplay s) = waterLevel s"
  "clock (updateLCDDisplay s) = clock s"
  "lastSensorRead (updateLCDDisplay s) = lastSensorRead s"
  by (simp_all add: updateLCDDisplay_def)

text \<open>What a pass of the dashboard does to the sensor values and to the sensor timestamp.\<close>

lemma handleSensorDashboard_due:
  assumes "SENSOR_READ_INTERVAL \<le> millis s - lastSensorRead s"
  shows "temperature (handleSensorDashboard i s) = temperature (readAllSensors i s)"
    and "humidity (handleSensorDashboard i s) = humidity (readAllSensors i s)"
    and "distance (handleSensorDashboard i s) = distance (readAllSensors i s)"
    and "waterLevel (handleSensorDashboard i s) = waterLevel (readAllSensors i s)"
    and "lastSensorRead (handleSensorDashboard i s) = millis s"
    and "clock (handleSensorDashboard i s) = clock s"
  using assms
  by (simp_all add: handleSensorDashboard_def Let_def updateLCDDisplay_fields
      updateStatusLEDs_fields checkAlertConditions_fields readAllSensors_def millis_def
      println_def)

lemma handleSensorDashboard_not_due:
  assumes "\<not> SENSOR_READ_INTERVAL \<le> millis s - lastSensorRead s"
  shows "temperature (handleSensorDashboard i s) = temperature s"
    and "humidity (handleSensorDashboard i s) = humidity s"
    and "distance (handleSensorDashboard i s) = distance s"
    and "waterLevel (handleSensorDashboard i s) = waterLevel s"
    and "lastSensorRead (handleSensorDashboard i s) = lastSensorRead s"
  using assms
  by (simp_all add: handleSensorDashboard_def Let_def updateLCDDisplay_fields)

text \<open>
  C6. When the DHT read of a sensor tick delivers NaN for the temperature or for the
  humidity, \<open>readAllSensors\<close> changes nothing but what the distance and water-level
  reads of the same tick store (and the validity flag they set), next to printing
  "DHT sensor read failed": the stored temperature and humidity are the old ones. The
  dashboard pass records the tick as done, so the next read is due 1000 ms later, and a
  pass \<open>d \<ge> 1000\<close> ms later that reads numbers stores them.
\<close>

theorem C6_dht_failure_skips_and_retries:
  fixes s :: "'a phase4_scheme" and p :: phase4
  shows
  "(isnan (dhtTemperature i) \<or> isnan (dhtHumidity i) \<longrightarrow>
      readAllSensors i s =
        (println DHT_sensor_read_failed s)
          \<lparr>distance := readUltrasonicDistance (echo i), waterLevel := water i,
           sensorDataValid := True\<rparr>
    \<and> temperature (readAllSensors i s) = temperature s
    \<and> humidity (readAllSensors i s) = humidity s)
 \<and> ((isnan (dhtTemperature i) \<or> isnan (dhtHumidity i))
      \<and> SENSOR_READ_INTERVAL \<le> millis p - lastSensorRead p \<longrightarrow>
      temperature (handleSensorDashboard i p) = temperature p
    \<and> humidity (handleSensorDashboard i p) = humidity p
    \<and> distance (handleSensorDashboard i p) = readUltrasonicDistance (echo i)
    \<and> waterLevel (handleSensorDashboard i p) = water i
    \<and> lastSensorRead (handleSensorDashboard i p) = millis p)
 \<and> ((isnan (dhtTemperature i) \<or> isnan (dhtHumidity i))
      \<and> SENSOR_READ_INTERVAL \<le> millis p - lastSensorRead p
      \<and> \<not> isnan (dhtTemperature j) \<and> \<not> isnan (dhtHumidity j) \<and> 1000 \<le> d \<longrightarrow>
      temperature (handleSensorDashboard j ((handleSensorDashboard i p)\<lparr>clock := clock p + d\<rparr>))
        = dhtTemperature j
    \<and> humidity (handleSensorDashboard j ((handleSensorDashboard i p)\<lparr>clock := clock p + d\<rparr>))
        = dhtHumidity j)"
proof -
  have p1: "readAllSensors i s =
        (println DHT_sensor_read_failed s)
          \<lparr>distance := readUltrasonicDistance (echo i), waterLevel := water i,
           sensorDataValid := True\<rparr>
      \<and> temperature (readAllSensors i s) = temperature s
      \<and> humidity (readAllSensors i s) = humidity s"
    if f: "isnan (dhtTemperature i) \<or> isnan (dhtHumidity i)"
    by (simp add: readAllSensors_failed [OF f] println_def)
  have p2: "temperature (handleSensorDashboard i p) = temperature p
      \<and> humidity (handleSensorDashboard i p) = humidity p
      \<and> distance (handleSensorDashboard i p) = readUltrasonicDistance (echo i)
      \<and> waterLevel (handleSensorDashboard i p) = water i
      \<and> lastSensorRead (handleSensorDashboard i p) = millis p"
    if f: "isnan (dhtTemperature i) \<or> isnan (dhtHumidity i)"
      and due: "SENSOR_READ_INTERVAL \<le> millis p - lastSensorRead p"
    by (simp add: handleSensorDashboard_due [OF due] readAllSensors_failed [OF f] println_def)
  have p3: "temperature (handleSensorDashboard j ((handleSensorDashboard i p)\<lparr>clock := clock p + d\<rparr>))
        = dhtTemperature j
      \<and> humidity (handleSensorDashboard j ((handleSensorDashboard i p)\<lparr>clock := clock p + d\<rparr>))
        = dhtHumidity j"
    if due: "SENSOR_READ_INTERVAL \<le> millis p - lastSensorRead p"
      and ok: "\<not> isnan (dhtTemperature j)" "\<not> isnan (dhtHumidity j)" and d: "1000 \<le> d"
  proof -
    let ?q = "(handleSensorDashboard i p)\<lparr>clock := clock p + d\<rparr>"
    have "millis ?q - lastSensorRead ?q = d"
      by (simp add: millis_def handleSensorDashboard_due(5) [OF due])
    then have due': "SENSOR_READ_INTERVAL \<le> millis ?q - lastSensorRead ?q"
      using d by (simp add: SENSOR_READ_INTERVAL_def)
    show ?thesis
      by (simp add: handleSensorDashboard_due(1,2) [OF due'] readAllSensors_ok [OF ok])
  qed
  from p1 p2 p3 show ?thesis by blast
qed

text \<open>
  The theorem at work on the state after \<open>setup()\<close>, set to hold 21.5 degrees and 40 per
  cent, 1000 ms after the last sensor read: a tick whose DHT read fails while the echo
  takes 1000 microseconds and the water sensor reads 300, then a tick 1000 ms later
  that reads 22 degrees and 41 per cent.
\<close>

theorem C6_dht_failure_skips_and_retries_witness:
  "isnan (dhtTemperature \<lparr>elapsed = 0, key = CHR 0x00, dhtTemperature = NaN,
       dhtHumidity = Fin 40, echo = 1000, water = 300\<rparr>)
 \<and> temperature (handleSensorDashboard
       \<lparr>elapsed = 0, key = CHR 0x00, dhtTemperature = NaN, dhtHumidity = Fin 40,
        echo = 1000, water = 300\<rparr>
       ((setup4 power_on4)\<lparr>temperature := Fin 21.5, humidity := Fin 40, clock := 2000\<rparr>))
     = Fin 21.5
 \<and> distance (handleSensorDashboard
       \<lparr>elapsed = 0, key = CHR 0x00, dhtTemperature = NaN, dhtHumidity = Fin 40,
        echo = 1000, water = 300\<rparr>
       ((setup4 power_on4)\<lparr>temperature := Fin 21.5, humidity := Fin 40, clock := 2000\<rparr>))
     = readUltrasonicDistance 1000
 \<and> waterLevel (handleSensorDashboard
       \<lparr>elapsed = 0, key = CHR 0x00, dhtTemperature = NaN, dhtHumidity = Fin 40,
        echo = 1000, water = 300\<rparr>
       ((setup4 power_on4)\<lparr>temperature := Fin 21.5, humidity := Fin 40, clock := 2000\<rparr>))
     = 300
 \<and> temperature (handleSensorDashboard
       \<lparr>elapsed = 0, key = CHR 0x00, dhtTemperature = Fin 22, dhtHumidity = Fin 41,
        echo = 1000, water = 300\<rparr>
       ((handleSensorDashboard
          \<lparr>elapsed = 0, key = CHR 0x00, dhtTemperature = NaN, dhtHumidity = Fin 40,
           echo = 1000, water = 300\<rparr>
          ((setup4 power_on4)\<lparr>temperature := Fin 21.5, humidity := Fin 40, clock := 2000\<rparr>))
        \<lparr>clock := 3000\<rparr>))
     = Fin 22"
proof -
  let ?i = "\<lparr>elapsed = 0, key = CHR 0x00, dhtTemperature = NaN, dhtHumidity = Fin 40,
             echo = 1000, water = 300\<rparr>"
  let ?j = "\<lparr>elapsed = 0, key = CHR 0x00, dhtTemperature = Fin 22, dhtHumidity = Fin 41,
             echo = 1000, water = 300\<rparr>"
  let ?p = "(setup4 power_on4)\<lparr>temperature := Fin 21.5, humidity := Fin 40, clock := 2000\<rparr>"
  have f: "isnan (dhtTemperature ?i) \<or> isnan (dhtHumidity ?i)" by simp
  have ok: "\<not> isnan (dhtTemperature ?j)" "\<not> isnan (dhtHumidity ?j)" by simp_all
  have "lastSensorRead (setup4 power_on4) = 1000"
    by (simp add: setup4_def power_on4_def initializeLCD_def delay_def millis_def Let_def)
  then have due: "SENSOR_READ_INTERVAL \<le> millis ?p - lastSensorRead ?p"
    by (simp add: millis_def SENSOR_READ_INTERVAL_def)
  have d: "(1000 :: ulong) \<le> 1000" by simp
  have c: "clock ?p + 1000 = 3000" by simp
  show ?thesis
    using f ok due d C6_dht_failure_skips_and_retries [of ?i ?p ?p ?j 1000]
    by (simp add: c)
qed

section \<open>The display indices stay in bounds (C10)\<close>

lemma cdiv_nonneg: "0 \<le> a \<Longrightarrow> cdiv a b = a div b"
  by (simp add: cdiv_def)

lemma cmod_nonneg: "0 \<le> a \<Longrightarrow> cmod a b = a mod b"
  by (simp add: cmod_def cdiv_def minus_mult_div_eq_mod)

lemma int16_small: "- 32768 \<le> x \<Longrightarrow> x < 32768 \<Longrightarrow> int16 x = x"
  by (simp add: int16_def sint_sbintrunc' signed_take_bit_int_eq_self)

lemma measureDistance_nonneg: "0 \<le> sint pulse \<Longrightarrow> 0 \<le> measureDistance pulse"
  by (simp add: measureDistance_def Let_def cdiv_nonneg pos_imp_zdiv_nonneg_iff)

lemma below_ten: "(y :: int) < 10 \<Longrightarrow> y \<le> 9"
  by simp

lemma decimal_digit: "0 \<le> (x :: int) mod 10 \<and> x mod 10 \<le> 9"
proof -
  have "x mod 10 < 10" by (rule pos_mod_bound) simp
  then have "x mod 10 \<le> 9" by (rule below_ten)
  moreover have "0 \<le> x mod 10" by (rule pos_mod_sign) simp
  ultimately show ?thesis by simp
qed

lemma thousands_digit:
  assumes "0 \<le> (c :: int)" and "c \<le> 9999"
  shows "0 \<le> c div 1000 \<and> c div 1000 \<le> 9"
proof -
  have "c div 1000 \<le> 9999 div 1000" using assms(2) by (rule zdiv_mono1) simp
  moreover have "0 \<le> c div 1000" using assms(1) by (simp add: pos_imp_zdiv_nonneg_iff)
  ultimately show ?thesis by simp
qed

lemma four_digits:
  fixes a b c d :: int
  assumes "0 \<le> a \<and> a \<le> 9" and "0 \<le> b \<and> b \<le> 9" and "0 \<le> c \<and> c \<le> 9"
    and "0 \<le> d \<and> d \<le> 9"
  shows "\<forall>x \<in> set [a, b, c, d]. 0 \<le> x \<and> x \<le> 9"
  using assms by simp

lemma update_all_four:
  assumes "length xs = 4"
  shows "xs[0 := a, 1 := b, 2 := c, 3 := d] = [a, b, c, d]"
proof -
  from assms obtain x0 x1 x2 x3 where "xs = [x0, x1, x2, x3]"
    by (auto simp: length_Suc_conv eval_nat_numeral)
  then show ?thesis by (simp add: eval_nat_numeral)
qed

lemma update_all_four':
  assumes "length xs = 4"
  shows "xs[0 := a, Suc 0 := b, 2 := c, 3 := d] = [a, b, c, d]"
  using update_all_four [OF assms, of a b c d] by simp

lemma break_number_digits:
  assumes "0 \<le> num" and "num \<le> 9999" and "length (digits s) = 4"
  shows "digits (break_number num s)
           = [num div 1000, num div 100 mod 10, num div 10 mod 10, num mod 10]"
proof -
  have a: "0 \<le> num div 1000" "num div 1000 \<le> 9"
    using thousands_digit [OF assms(1,2)] by simp_all
  have b: "0 \<le> num div 100" "0 \<le> num div 10"
    using assms(1) by (simp_all add: pos_imp_zdiv_nonneg_iff)
  have i0: "int16 (num div 1000) = num div 1000"
    using a by (intro int16_small) simp_all
  have i: "int16 (x mod 10) = x mod 10" for x :: int
    using decimal_digit [of x] by (intro int16_small) simp_all
  show ?thesis
    using assms(3)
    by (simp add: break_number_def update_all_four' cdiv_nonneg cmod_nonneg assms(1) b i0 i)
qed

lemma sampleDistance_eq:
  "sampleDistance pulse s =
     (break_number (min (measureDistance pulse) 9999)
        (s\<lparr>alarm.distance := min (measureDistance pulse) 9999\<rparr>))
     \<lparr>ledPin := (min (measureDistance pulse) 9999 \<le> 5)\<rparr>"
  by (simp add: sampleDistance_def Let_def break_number_def min_def)

lemma sampleDistance_ok:
  assumes "0 \<le> sint pulse" and "display_ok s"
  shows "display_ok (sampleDistance pulse s)"
    and "0 \<le> alarm.distance (sampleDistance pulse s)"
    and "alarm.distance (sampleDistance pulse s) \<le> 9999"
proof -
  define c where "c = min (measureDistance pulse) 9999"
  define t where "t = s\<lparr>alarm.distance := c\<rparr>"
  have "0 \<le> measureDistance pulse" using assms(1) by (rule measureDistance_nonneg)
  then have c: "0 \<le> c" "c \<le> 9999" by (simp_all add: c_def)
  have len: "length (digits t) = 4" using assms(2) by (simp add: display_ok_def t_def)
  have dg: "digits (break_number c t)
           = [c div 1000, c div 100 mod 10, c div 10 mod 10, c mod 10]"
    by (rule break_number_digits [OF c len])
  have other: "count (break_number c t) = count s" "alarm.distance (break_number c t) = c"
    by (simp_all add: break_number_def t_def)
  have sd: "digits (sampleDistance pulse s) = digits (break_number c t)"
       "count (sampleDistance pulse s) = count s"
       "alarm.distance (sampleDistance pulse s) = c"
    unfolding sampleDistance_eq c_def [symmetric] t_def [symmetric]
    by (simp_all add: other)
  have ds: "\<forall>x \<in> set [c div 1000, c div 100 mod 10, c div 10 mod 10, c mod 10].
              0 \<le> x \<and> x \<le> 9"
    by (rule four_digits [OF thousands_digit [OF c] decimal_digit decimal_digit decimal_digit])
  have cnt: "0 \<le> count s \<and> count s < 4" using assms(2) by (simp add: display_ok_def)
  have l4: "length [c div 1000, c div 100 mod 10, c div 10 mod 10, c mod 10] = 4" by simp
  show "display_ok (sampleDistance pulse s)"
    unfolding display_ok_def sd dg using cnt ds l4 by blast
  show "0 \<le> alarm.distance (sampleDistance pulse s)"
       "alarm.distance (sampleDistance pulse s) \<le> 9999"
    using c unfolding sd by simp_all
qed

lemma display_number_ok:
  assumes "display_ok s"
  shows "\<exists>s'. display_number s = Inr s' \<and> display_ok s' \<and> alarm.distance s' = alarm.distance s
              \<and> digits s' = digits s
              \<and> shiftRegister s' = numbers ! nat (digits s ! nat (count s))"
proof -
  have cnt: "0 \<le> count s" "count s < 4" "nat (count s) < length (digits s)"
    using assms by (auto simp add: display_ok_def)
  then have "digits s ! nat (count s) \<in> set (digits s)" by simp
  then have d: "0 \<le> digits s ! nat (count s)" "digits s ! nat (count s) \<le> 9"
    using assms by (simp_all add: display_ok_def)
  then have dn: "nat (digits s ! nat (count s)) < length numbers"
    by (simp add: numbers_def)
  show ?thesis
    using cnt d dn assms
    by (simp add: display_number_def cathode_high_def Let_def display_ok_def)
qed

lemma readMuteButton_display:
  "display_ok (readMuteButton b s) = display_ok s"
  "alarm.distance (readMuteButton b s) = alarm.distance s"
  by (simp_all add: readMuteButton_def toggleMute_def println_def Let_def display_ok_def)

lemma handleCarBackupBuzzer_display:
  "display_ok (handleCarBackupBuzzer s) = display_ok s"
  "alarm.distance (handleCarBackupBuzzer s) = alarm.distance s"
  by (simp_all add: handleCarBackupBuzzer_def Let_def display_ok_def)

lemma loop3_tasks:
  "loop3 i s =
    (case displayTask (clock s + elapsed i)
            (sensorTask (clock s + elapsed i) (echoPin i)
               (readMuteButton (muteButtonPin i) (s\<lparr>clock := clock s + elapsed i\<rparr>))) of
       Inl e \<Rightarrow> Inl e
     | Inr t \<Rightarrow> Inr (buzzerTask (clock s + elapsed i) t))"
  by (simp add: loop3_def Let_def displayTask_def sensorTask_def buzzerTask_def millis_def
      split: sum.split)

lemma sensorTask_ok:
  assumes "0 \<le> sint pulse" and "alarm_ok s"
  shows "alarm_ok (sensorTask c pulse s)"
proof (cases "sensorInterval \<le> c - previousSensorMillis s")
  case True
  let ?t = "s\<lparr>executed := executed s @ [Distance_sampling], previousSensorMillis := c\<rparr>"
  have "display_ok ?t" using assms(2) by (simp add: alarm_ok_def display_ok_def)
  from sampleDistance_ok [OF assms(1) this] True show ?thesis
    by (simp add: sensorTask_def Let_def alarm_ok_def)
next
  case False
  with assms(2) show ?thesis by (simp add: sensorTask_def)
qed

lemma displayTask_ok:
  assumes "alarm_ok s"
  shows "\<exists>s'. displayTask c s = Inr s' \<and> alarm_ok s'"
proof (cases "displayInterval \<le> c - previousDisplayMillis s")
  case True
  let ?t = "s\<lparr>executed := executed s @ [Display_multiplexing], previousDisplayMillis := c\<rparr>"
  have "display_ok ?t" "alarm.distance ?t = alarm.distance s"
    using assms by (simp_all add: alarm_ok_def display_ok_def)
  with display_number_ok [of ?t] assms True show ?thesis
    by (auto simp add: displayTask_def Let_def alarm_ok_def)
next
  case False
  with assms show ?thesis by (simp add: displayTask_def)
qed

lemma buzzerTask_ok: "alarm_ok s \<Longrightarrow> alarm_ok (buzzerTask c s)"
  by (simp add: buzzerTask_def Let_def alarm_ok_def handleCarBackupBuzzer_display)
     (simp add: display_ok_def)

lemma loop3_ok:
  assumes "alarm_ok s" and "0 \<le> sint (echoPin i)"
  shows "\<exists>s'. loop3 i s = Inr s' \<and> alarm_ok s'"
proof -
  let ?c = "clock s + elapsed i"
  let ?s1 = "readMuteButton (muteButtonPin i) (s\<lparr>clock := ?c\<rparr>)"
  have "alarm_ok (s\<lparr>clock := ?c\<rparr>)"
    using assms(1) by (simp add: alarm_ok_def display_ok_def)
  then have "alarm_ok ?s1" by (simp add: alarm_ok_def readMuteButton_display)
  then have "alarm_ok (sensorTask ?c (echoPin i) ?s1)"
    by (rule sensorTask_ok [OF assms(2)])
  from displayTask_ok [OF this, of ?c] obtain t
    where t: "displayTask ?c (sensorTask ?c (echoPin i) ?s1) = Inr t" "alarm_ok t"
    by blast
  then show ?thesis by (simp add: loop3_tasks buzzerTask_ok)
qed

lemma run3_ok:
  assumes "alarm_ok s" and "\<forall>i \<in> set is. 0 \<le> sint (echoPin i)"
  shows "\<exists>s'. run3 is s = Inr s' \<and> alarm_ok s'"
  using assms
proof (induction "is" arbitrary: s)
  case Nil
  then show ?case by simp
next
  case (Cons i "is")
  from loop3_ok [of s i] Cons.prems obtain t where t: "loop3 i s = Inr t" "alarm_ok t"
    by auto
  from Cons.IH [OF t(2)] Cons.prems(2) t(1) show ?case by simp
qed

lemma setup3_ok: "alarm_ok setup3"
  by (simp add: alarm_ok_def display_ok_def setup3_def)

text \<open>
  C10. In the proximity alarm, through every run from \<open>setup()\<close> in which \<open>pulseIn\<close>
  delivers echo times that are not negative as a \<open>long\<close> (with its timeout of 30 ms it
  delivers at most some 30000 microseconds): no pass of \<open>loop()\<close> indexes an array out
  of bounds, the stored distance is between 0 and 9999, the four digits are each
  between 0 and 9 and \<open>count\<close> is between 0 and 3. The digits \<open>break_number\<close> computes
  for a value between 0 and 9999 are its four decimal digits.
\<close>

theorem C10_display_indices_in_bounds:
  "((\<forall>i \<in> set is. 0 \<le> sint (echoPin i)) \<longrightarrow>
     (\<exists>s'. run3 is setup3 = Inr s'
         \<and> 0 \<le> alarm.distance s' \<and> alarm.distance s' \<le> 9999
         \<and> length (digits s') = 4 \<and> (\<forall>d \<in> set (digits s'). 0 \<le> d \<and> d \<le> 9)
         \<and> 0 \<le> count s' \<and> count s' < 4
         \<and> (\<exists>t. display_number s' = Inr t)))
   \<and> (0 \<le> num \<and> num \<le> 9999 \<and> length (digits s) = 4 \<longrightarrow>
        digits (break_number num s)
          = [num div 1000, num div 100 mod 10, num div 10 mod 10, num mod 10]
      \<and> (\<forall>d \<in> set (digits (break_number num s)). 0 \<le> d \<and> d \<le> 9))"
proof -
  have p1: "\<exists>s'. run3 is setup3 = Inr s'
         \<and> 0 \<le> alarm.distance s' \<and> alarm.distance s' \<le> 9999
         \<and> length (digits s') = 4 \<and> (\<forall>d \<in> set (digits s'). 0 \<le> d \<and> d \<le> 9)
         \<and> 0 \<le> count s' \<and> count s' < 4
         \<and> (\<exists>t. display_number s' = Inr t)"
    if "\<forall>i \<in> set is. 0 \<le> sint (echoPin i)"
  proof -
    from run3_ok [OF setup3_ok that] obtain s' where s': "run3 is setup3 = Inr s'" "alarm_ok s'"
      by blast
    from s'(2) have "display_ok s'" by (simp add: alarm_ok_def)
    from display_number_ok [OF this] obtain t where "display_number s' = Inr t" by blast
    with s' show ?thesis by (auto simp add: alarm_ok_def display_ok_def)
  qed
  have p2: "digits (break_number num s)
          = [num div 1000, num div 100 mod 10, num div 10 mod 10, num mod 10]
      \<and> (\<forall>d \<in> set (digits (break_number num s)). 0 \<le> d \<and> d \<le> 9)"
    if "0 \<le> num" "num \<le> 9999" "length (digits s) = 4"
  proof -
    have "\<forall>x \<in> set [num div 1000, num div 100 mod 10, num div 10 mod 10, num mod 10].
              0 \<le> x \<and> x \<le> 9"
      by (rule four_digits [OF thousands_digit [OF that(1,2)] decimal_digit decimal_digit
            decimal_digit])
    then show ?thesis unfolding break_number_digits [OF that] by blast
  qed
  from p1 p2 show ?thesis by blast
qed

text \<open>
  The theorem at work: a first pass 100 ms after \<open>setup()\<close> with an echo of 7000
  microseconds, which is 120 cm, and \<open>break_number\<close> on the largest value, 9999.
\<close>

theorem C10_display_indices_in_bounds_witness:
  "(0 :: int) \<le> sint (echoPin \<lparr>elapsed = 100, muteButtonPin = True, echoPin = 7000\<rparr>)
 \<and> (\<exists>s'. run3 [\<lparr>elapsed = 100, muteButtonPin = True, echoPin = 7000\<rparr>] setup3 = Inr s'
         \<and> 0 \<le> alarm.distance s' \<and> alarm.distance s' \<le> 9999
         \<and> length (digits s') = 4 \<and> (\<forall>d \<in> set (digits s'). 0 \<le> d \<and> d \<le> 9)
         \<and> 0 \<le> count s' \<and> count s' < 4
         \<and> (\<exists>t. display_number s' = Inr t))
 \<and> digits (break_number 9999 setup3) = [9, 9, 9, 9]"
proof -
  let ?i = "\<lparr>elapsed = 100, muteButtonPin = True, echoPin = 7000\<rparr>"
  have h: "\<forall>i \<in> set [?i]. 0 \<le> sint (echoPin i)" by simp
  have l: "length (digits setup3) = 4" by (simp add: setup3_def)
  show ?thesis
    using h l C10_display_indices_in_bounds [of "[?i]" 9999 setup3]
    by simp
qed

section \<open>The tick rule of the proximity alarm (C7)\<close>

lemma display_number_eq:
  assumes "display_ok s"
  shows "display_number s =
           Inr (s\<lparr>cathodes := [True, True, True, True][nat (count s) := False],
                  shiftRegister := numbers ! nat (digits s ! nat (count s)),
                  count := (if count s + 1 = 4 then 0 else count s + 1)\<rparr>)"
proof -
  have cnt: "0 \<le> count s" "count s < 4" "nat (count s) < length (digits s)"
    using assms by (auto simp add: display_ok_def)
  then have "digits s ! nat (count s) \<in> set (digits s)" by simp
  then have d: "0 \<le> digits s ! nat (count s)" "digits s ! nat (count s) \<le> 9"
    using assms by (simp_all add: display_ok_def)
  then have dn: "nat (digits s ! nat (count s)) < length numbers"
    by (simp add: numbers_def)
  show ?thesis
    using cnt d dn by (simp add: display_number_def cathode_high_def Let_def)
qed

lemma readMuteButton_stamps:
  "executed (readMuteButton b s) = executed s"
  "previousSensorMillis (readMuteButton b s) = previousSensorMillis s"
  "previousDisplayMillis (readMuteButton b s) = previousDisplayMillis s"
  "previousBuzzerMillis (readMuteButton b s) = previousBuzzerMillis s"
  "buzzerInterval (readMuteButton b s) = buzzerInterval s"
  by (simp_all add: readMuteButton_def toggleMute_def println_def Let_def)

lemma sampleDistance_stamps:
  "executed (sampleDistance p s) = executed s"
  "previousSensorMillis (sampleDistance p s) = previousSensorMillis s"
  "previousDisplayMillis (sampleDistance p s) = previousDisplayMillis s"
  "previousBuzzerMillis (sampleDistance p s) = previousBuzzerMillis s"
  "buzzerInterval (sampleDistance p s) = buzzerInterval s"
  "muteEnabled (sampleDistance p s) = muteEnabled s"
  "buzzerState (sampleDistance p s) = buzzerState s"
  "buzzerPin (sampleDistance p s) = buzzerPin s"
  by (simp_all add: sampleDistance_eq break_number_def)

lemma sensorTask_stamps:
  "executed (sensorTask c p s)
     = executed s @ (if sensorInterval \<le> c - previousSensorMillis s then [Distance_sampling] else [])"
  "previousSensorMillis (sensorTask c p s)
     = (if sensorInterval \<le> c - previousSensorMillis s then c else previousSensorMillis s)"
  "previousDisplayMillis (sensorTask c p s) = previousDisplayMillis s"
  "previousBuzzerMillis (sensorTask c p s) = previousBuzzerMillis s"
  "buzzerInterval (sensorTask c p s) = buzzerInterval s"
  "muteEnabled (sensorTask c p s) = muteEnabled s"
  "buzzerState (sensorTask c p s) = buzzerState s"
  "buzzerPin (sensorTask c p s) = buzzerPin s"
  by (simp_all add: sensorTask_def sampleDistance_stamps)

lemma sensorTask_display_ok:
  assumes "0 \<le> sint p" and "display_ok s"
  shows "display_ok (sensorTask c p s)"
proof (cases "sensorInterval \<le> c - previousSensorMillis s")
  case True
  let ?t = "s\<lparr>executed := executed s @ [Distance_sampling], previousSensorMillis := c\<rparr>"
  have "display_ok ?t" using assms(2) by (simp add: display_ok_def)
  from sampleDistance_ok(1) [OF assms(1) this] True show ?thesis
    by (simp add: sensorTask_def)
next
  case False
  with assms(2) show ?thesis by (simp add: sensorTask_def)
qed

lemma displayTask_eq:
  assumes "display_ok s"
  shows "\<exists>s'. displayTask c s = Inr s'
      \<and> executed s' = executed s
           @ (if displayInterval \<le> c - previousDisplayMillis s then [Display_multiplexing] else [])
      \<and> previousDisplayMillis s'
           = (if displayInterval \<le> c - previousDisplayMillis s then c else previousDisplayMillis s)
      \<and> previousSensorMillis s' = previousSensorMillis s
      \<and> previousBuzzerMillis s' = previousBuzzerMillis s
      \<and> buzzerInterval s' = buzzerInterval s
      \<and> muteEnabled s' = muteEnabled s \<and> buzzerState s' = buzzerState s
      \<and> buzzerPin s' = buzzerPin s \<and> alarm.distance s' = alarm.distance s"
proof (cases "displayInterval \<le> c - previousDisplayMillis s")
  case True
  let ?t = "s\<lparr>executed := executed s @ [Display_multiplexing], previousDisplayMillis := c\<rparr>"
  have "display_ok ?t" using assms by (simp add: display_ok_def)
  from display_number_eq [OF this] True show ?thesis
    by (simp add: displayTask_def)
next
  case False
  then show ?thesis by (simp add: displayTask_def)
qed

lemma handleCarBackupBuzzer_stamps:
  "executed (handleCarBackupBuzzer s) = executed s"
  "previousSensorMillis (handleCarBackupBuzzer s) = previousSensorMillis s"
  "previousDisplayMillis (handleCarBackupBuzzer s) = previousDisplayMillis s"
  "previousBuzzerMillis (handleCarBackupBuzzer s) = previousBuzzerMillis s"
  "muteEnabled (handleCarBackupBuzzer s) = muteEnabled s"
  by (simp_all add: handleCarBackupBuzzer_def Let_def)

lemma buzzerTask_stamps:
  "executed (buzzerTask c s)
     = executed s @ (if buzzerInterval s \<le> c - previousBuzzerMillis s then [Buzzer_handling] else [])"
  "previousBuzzerMillis (buzzerTask c s)
     = (if buzzerInterval s \<le> c - previousBuzzerMillis s then c else previousBuzzerMillis s)"
  "previousSensorMillis (buzzerTask c s) = previousSensorMillis s"
  "previousDisplayMillis (buzzerTask c s) = previousDisplayMillis s"
  "muteEnabled (buzzerTask c s) = muteEnabled s"
  "alarm.distance (buzzerTask c s) = alarm.distance s"
  by (simp_all add: buzzerTask_def handleCarBackupBuzzer_stamps handleCarBackupBuzzer_display)



section \<open>The beep interval of the car alarm (C3)\<close>

lemma beep_interval_formula:
  "2 \<le> d \<Longrightarrow> arduino_map d 2 10 100 800 = (d - 2) * 700 div 8 + 100"
  by (simp add: arduino_map_def cdiv_def)

lemma beep_interval_step:
  assumes "2 \<le> d" and "d < d'"
  shows "arduino_map d 2 10 100 800 < arduino_map d' 2 10 100 800"
proof -
  define x where "x = (d - 2) * 700"
  define y where "y = (d' - 2) * 700"
  have "x + 8 \<le> y" using assms(2) by (simp add: x_def y_def)
  then have "(x + 8) div 8 \<le> y div 8" by (rule zdiv_mono1) simp
  moreover have "(x + 8) div 8 = x div 8 + 1" by simp
  ultimately have "x div 8 < y div 8" by simp
  then show ?thesis
    using assms by (simp add: beep_interval_formula x_def y_def)
qed

lemma beep_interval_ends:
  "arduino_map 2 2 10 100 800 = 100" "arduino_map 10 2 10 100 800 = 800"
  by (simp_all add: beep_interval_formula)

lemma beep_interval_range:
  assumes "2 \<le> d" and "d \<le> 10"
  shows "100 \<le> arduino_map d 2 10 100 800 \<and> arduino_map d 2 10 100 800 \<le> 800"
proof -
  have lo: "100 \<le> arduino_map d 2 10 100 800"
  proof (cases "d = 2")
    case True then show ?thesis by (simp add: beep_interval_ends)
  next
    case False
    with assms(1) have "2 < d" by simp
    from beep_interval_step [of 2 d, OF _ this] show ?thesis by (simp add: beep_interval_ends)
  qed
  have hi: "arduino_map d 2 10 100 800 \<le> 800"
  proof (cases "d = 10")
    case True then show ?thesis by (simp add: beep_interval_ends)
  next
    case False
    with assms(2) have "d < 10" by simp
    from beep_interval_step [OF assms(1) this] show ?thesis by (simp add: beep_interval_ends)
  qed
  from lo hi show ?thesis by simp
qed

lemma beep_interval_word:
  assumes "100 \<le> m" and "m \<le> 800"
  shows "uint (word_of_int m :: ulong) = m" and "\<not> (word_of_int m :: ulong) < 100"
proof -
  have "m < 2 ^ 32" using assms(2) by simp
  then show u: "uint (word_of_int m :: ulong) = m"
    using assms(1) by (simp add: uint_word_of_int_eq take_bit_int_eq_self)
  show "\<not> (word_of_int m :: ulong) < 100"
    using assms(1) by (simp add: word_less_def u)
qed

lemma handleCarBackupBuzzer_beep:
  assumes "\<not> muteEnabled s" and "2 \<le> alarm.distance s" and "alarm.distance s \<le> 10"
  shows "buzzerState (handleCarBackupBuzzer s) = (\<not> buzzerState s)"
    and "buzzerPin (handleCarBackupBuzzer s) = (\<not> buzzerState s)"
    and "uint (buzzerInterval (handleCarBackupBuzzer s))
           = arduino_map (alarm.distance s) 2 10 100 800"
proof -
  define m where "m = arduino_map (alarm.distance s) 2 10 100 800"
  have r: "100 \<le> m" "m \<le> 800"
    using beep_interval_range [OF assms(2,3)] by (simp_all add: m_def)
  have h: "handleCarBackupBuzzer s =
      s\<lparr>buzzerInterval := word_of_int m, buzzerState := \<not> buzzerState s,
        buzzerPin := \<not> buzzerState s\<rparr>"
    using assms beep_interval_word(2) [OF r]
    by (simp add: handleCarBackupBuzzer_def Let_def m_def [symmetric])
  show "buzzerState (handleCarBackupBuzzer s) = (\<not> buzzerState s)"
    and "buzzerPin (handleCarBackupBuzzer s) = (\<not> buzzerState s)"
    by (simp_all add: h)
  show "uint (buzzerInterval (handleCarBackupBuzzer s))
           = arduino_map (alarm.distance s) 2 10 100 800"
    using beep_interval_word(1) [OF r] by (simp add: h m_def)
qed

lemma handleCarBackupBuzzer_danger:
  assumes "\<not> muteEnabled s" and "0 < alarm.distance s" and "alarm.distance s < 2"
  shows "handleCarBackupBuzzer s = s\<lparr>buzzerPin := True, buzzerState := True\<rparr>"
  using assms by (simp add: handleCarBackupBuzzer_def)

lemma handleCarBackupBuzzer_off:
  assumes "\<not> muteEnabled s" and "alarm.distance s = 0 \<or> 10 < alarm.distance s"
  shows "handleCarBackupBuzzer s
           = s\<lparr>buzzerState := False, buzzerPin := False, buzzerInterval := 200\<rparr>"
  using assms by (auto simp add: handleCarBackupBuzzer_def)

lemma readMuteButton_unmuted:
  assumes "\<not> muteEnabled (readMuteButton b s)"
  shows "buzzerState (readMuteButton b s) = buzzerState s"
    and "buzzerPin (readMuteButton b s) = buzzerPin s"
  using assms
  by (auto simp add: readMuteButton_def toggleMute_def println_def Let_def split: if_splits)

lemma readMuteButton_other:
  "alarm.distance (readMuteButton b s) = alarm.distance s"
  "display_ok (readMuteButton b s) = display_ok s"
  by (simp_all add: readMuteButton_display)

lemma readMuteButton_muteEnabled:
  "muteEnabled (readMuteButton b s)
     = (if \<not> b \<and> \<not> alarm.lastButtonState s then \<not> muteEnabled s else muteEnabled s)"
  by (simp add: readMuteButton_def toggleMute_def println_def Let_def)

lemma sensorTask_distance:
  "alarm.distance (sensorTask c p s)
     = (if sensorInterval \<le> c - previousSensorMillis s then min (measureDistance p) 9999
        else alarm.distance s)"
  by (simp add: sensorTask_def sampleDistance_eq break_number_def)

text \<open>
  C3. With mute off and a distance \<open>d\<close> in the state, \<open>handleCarBackupBuzzer\<close>
  \<^item> for \<open>2 \<le> d \<le> 10\<close> sets the beep interval to \<open>map(d, 2, 10, 100, 800)\<close> milliseconds and
    inverts the buzzer output; the interval is 100 at 2 cm, 800 at 10 cm and strictly
    increasing in between;
  \<^item> for \<open>0 < d < 2\<close> switches the buzzer on and leaves the interval as it is;
  \<^item> for \<open>d = 0\<close> or \<open>d > 10\<close> switches the buzzer off and sets the interval to 200 ms.

  In a pass of \<open>loop()\<close> that ends with mute off, \<open>now\<close> being its clock reading and \<open>d\<close>
  the distance the pass ends with (the sample clamped to 9999 if the distance task ran
  in the pass, the stored distance otherwise): if the beep interval has not elapsed since the last
  buzzer tick, the buzzer output and the interval stay as they are; if it has, the
  handler runs once, so for \<open>2 \<le> d \<le> 10\<close> the output toggles once.
\<close>

theorem C3_beep_interval:
  "(\<not> muteEnabled s \<and> 2 \<le> alarm.distance s \<and> alarm.distance s \<le> 10 \<longrightarrow>
      uint (buzzerInterval (handleCarBackupBuzzer s))
        = arduino_map (alarm.distance s) 2 10 100 800
    \<and> buzzerState (handleCarBackupBuzzer s) = (\<not> buzzerState s)
    \<and> buzzerPin (handleCarBackupBuzzer s) = (\<not> buzzerState s))
 \<and> arduino_map 2 2 10 100 800 = 100
 \<and> arduino_map 10 2 10 100 800 = 800
 \<and> (2 \<le> d \<and> d < d' \<and> d' \<le> 10 \<longrightarrow>
      arduino_map d 2 10 100 800 < arduino_map d' 2 10 100 800)
 \<and> (\<not> muteEnabled s \<and> 0 < alarm.distance s \<and> alarm.distance s < 2 \<longrightarrow>
      buzzerPin (handleCarBackupBuzzer s) \<and> buzzerState (handleCarBackupBuzzer s)
    \<and> buzzerInterval (handleCarBackupBuzzer s) = buzzerInterval s)
 \<and> (\<not> muteEnabled s \<and> (alarm.distance s = 0 \<or> 10 < alarm.distance s) \<longrightarrow>
      \<not> buzzerPin (handleCarBackupBuzzer s) \<and> \<not> buzzerState (handleCarBackupBuzzer s)
    \<and> buzzerInterval (handleCarBackupBuzzer s) = 200)
 \<and> (display_ok t \<and> 0 \<le> sint (echoPin i) \<and> now = clock t + elapsed i \<longrightarrow>
      (\<exists>t'. loop3 i t = Inr t'
        \<and> muteEnabled t'
            = (if \<not> muteButtonPin i \<and> \<not> alarm.lastButtonState t then \<not> muteEnabled t
               else muteEnabled t)
        \<and> alarm.distance t'
            = (if 100 \<le> now - previousSensorMillis t then min (measureDistance (echoPin i)) 9999
               else alarm.distance t)
        \<and> (\<not> muteEnabled t' \<and> \<not> buzzerInterval t \<le> now - previousBuzzerMillis t \<longrightarrow>
              buzzerState t' = buzzerState t \<and> buzzerPin t' = buzzerPin t
            \<and> buzzerInterval t' = buzzerInterval t)
        \<and> (\<not> muteEnabled t' \<and> buzzerInterval t \<le> now - previousBuzzerMillis t
              \<and> 2 \<le> alarm.distance t' \<and> alarm.distance t' \<le> 10 \<longrightarrow>
              buzzerState t' = (\<not> buzzerState t) \<and> buzzerPin t' = (\<not> buzzerState t)
            \<and> uint (buzzerInterval t') = arduino_map (alarm.distance t') 2 10 100 800)
        \<and> (\<not> muteEnabled t' \<and> buzzerInterval t \<le> now - previousBuzzerMillis t
              \<and> 0 < alarm.distance t' \<and> alarm.distance t' < 2 \<longrightarrow>
              buzzerState t' \<and> buzzerPin t' \<and> buzzerInterval t' = buzzerInterval t)
        \<and> (\<not> muteEnabled t' \<and> buzzerInterval t \<le> now - previousBuzzerMillis t
              \<and> (alarm.distance t' = 0 \<or> 10 < alarm.distance t') \<longrightarrow>
              \<not> buzzerState t' \<and> \<not> buzzerPin t' \<and> buzzerInterval t' = 200)))"
proof -
  have p1: "uint (buzzerInterval (handleCarBackupBuzzer s))
        = arduino_map (alarm.distance s) 2 10 100 800
      \<and> buzzerState (handleCarBackupBuzzer s) = (\<not> buzzerState s)
      \<and> buzzerPin (handleCarBackupBuzzer s) = (\<not> buzzerState s)"
    if "\<not> muteEnabled s" "2 \<le> alarm.distance s" "alarm.distance s \<le> 10"
    using handleCarBackupBuzzer_beep [OF that] by simp
  have p2: "arduino_map d 2 10 100 800 < arduino_map d' 2 10 100 800"
    if "2 \<le> d" "d < d'"
    using that by (rule beep_interval_step)
  have p3: "buzzerPin (handleCarBackupBuzzer s) \<and> buzzerState (handleCarBackupBuzzer s)
      \<and> buzzerInterval (handleCarBackupBuzzer s) = buzzerInterval s"
    if "\<not> muteEnabled s" "0 < alarm.distance s" "alarm.distance s < 2"
    by (simp add: handleCarBackupBuzzer_danger [OF that])
  have p4: "\<not> buzzerPin (handleCarBackupBuzzer s) \<and> \<not> buzzerState (handleCarBackupBuzzer s)
      \<and> buzzerInterval (handleCarBackupBuzzer s) = 200"
    if "\<not> muteEnabled s" "alarm.distance s = 0 \<or> 10 < alarm.distance s"
    by (simp add: handleCarBackupBuzzer_off [OF that])
  have p5: "\<exists>t'. loop3 i t = Inr t'
        \<and> muteEnabled t'
            = (if \<not> muteButtonPin i \<and> \<not> alarm.lastButtonState t then \<not> muteEnabled t
               else muteEnabled t)
        \<and> alarm.distance t'
            = (if 100 \<le> now - previousSensorMillis t then min (measureDistance (echoPin i)) 9999
               else alarm.distance t)
        \<and> (\<not> muteEnabled t' \<and> \<not> buzzerInterval t \<le> now - previousBuzzerMillis t \<longrightarrow>
              buzzerState t' = buzzerState t \<and> buzzerPin t' = buzzerPin t
            \<and> buzzerInterval t' = buzzerInterval t)
        \<and> (\<not> muteEnabled t' \<and> buzzerInterval t \<le> now - previousBuzzerMillis t
              \<and> 2 \<le> alarm.distance t' \<and> alarm.distance t' \<le> 10 \<longrightarrow>
              buzzerState t' = (\<not> buzzerState t) \<and> buzzerPin t' = (\<not> buzzerState t)
            \<and> uint (buzzerInterval t') = arduino_map (alarm.distance t') 2 10 100 800)
        \<and> (\<not> muteEnabled t' \<and> buzzerInterval t \<le> now - previousBuzzerMillis t
              \<and> 0 < alarm.distance t' \<and> alarm.distance t' < 2 \<longrightarrow>
              buzzerState t' \<and> buzzerPin t' \<and> buzzerInterval t' = buzzerInterval t)
        \<and> (\<not> muteEnabled t' \<and> buzzerInterval t \<le> now - previousBuzzerMillis t
              \<and> (alarm.distance t' = 0 \<or> 10 < alarm.distance t') \<longrightarrow>
              \<not> buzzerState t' \<and> \<not> buzzerPin t' \<and> buzzerInterval t' = 200)"
    if ok: "display_ok t" and p: "0 \<le> sint (echoPin i)" and now: "now = clock t + elapsed i"
  proof -
    let ?s1 = "readMuteButton (muteButtonPin i) (t\<lparr>clock := now\<rparr>)"
    let ?s2 = "sensorTask now (echoPin i) ?s1"
    have "display_ok (t\<lparr>clock := now\<rparr>)" using ok by (simp add: display_ok_def)
    then have "display_ok ?s1" by (simp add: readMuteButton_display)
    then have "display_ok ?s2" by (rule sensorTask_display_ok [OF p])
    from displayTask_eq [OF this, of now] obtain s3 where s3: "displayTask now ?s2 = Inr s3"
      and f3: "previousBuzzerMillis s3 = previousBuzzerMillis ?s2"
        "buzzerInterval s3 = buzzerInterval ?s2" "muteEnabled s3 = muteEnabled ?s2"
        "buzzerState s3 = buzzerState ?s2" "buzzerPin s3 = buzzerPin ?s2"
        "alarm.distance s3 = alarm.distance ?s2"
      by blast
    have l: "loop3 i t = Inr (buzzerTask now s3)"
      using s3 by (simp add: loop3_tasks now)
    have g: "previousBuzzerMillis s3 = previousBuzzerMillis t" "buzzerInterval s3 = buzzerInterval t"
      "muteEnabled s3 = muteEnabled ?s1" "buzzerState s3 = buzzerState ?s1"
      "buzzerPin s3 = buzzerPin ?s1"
      by (simp_all add: f3 sensorTask_stamps readMuteButton_stamps)
    let ?u = "s3\<lparr>executed := executed s3 @ [Buzzer_handling], previousBuzzerMillis := now\<rparr>"
    have u: "muteEnabled ?u = muteEnabled s3" "alarm.distance ?u = alarm.distance s3"
      "buzzerState ?u = buzzerState s3" "buzzerInterval ?u = buzzerInterval s3"
      by simp_all
    have bt: "buzzerTask now s3 =
        (if buzzerInterval t \<le> now - previousBuzzerMillis t then handleCarBackupBuzzer ?u else s3)"
      by (simp add: buzzerTask_def g(1,2))
    have m: "muteEnabled (buzzerTask now s3) = muteEnabled ?s1"
      and dd: "alarm.distance (buzzerTask now s3) = alarm.distance s3"
      by (simp_all add: buzzerTask_stamps g(3))
    have q1: "buzzerState (buzzerTask now s3) = buzzerState t
        \<and> buzzerPin (buzzerTask now s3) = buzzerPin t
        \<and> buzzerInterval (buzzerTask now s3) = buzzerInterval t"
      if "\<not> muteEnabled (buzzerTask now s3)" "\<not> buzzerInterval t \<le> now - previousBuzzerMillis t"
    proof -
      from that(1) have "\<not> muteEnabled ?s1" by (simp add: m)
      from readMuteButton_unmuted [OF this] that(2) show ?thesis
        by (simp add: bt g)
    qed
    have q2: "buzzerState (buzzerTask now s3) = (\<not> buzzerState t)
        \<and> buzzerPin (buzzerTask now s3) = (\<not> buzzerState t)
        \<and> uint (buzzerInterval (buzzerTask now s3))
            = arduino_map (alarm.distance (buzzerTask now s3)) 2 10 100 800"
      if "\<not> muteEnabled (buzzerTask now s3)" "buzzerInterval t \<le> now - previousBuzzerMillis t"
        "2 \<le> alarm.distance (buzzerTask now s3)" "alarm.distance (buzzerTask now s3) \<le> 10"
    proof -
      from that(1) have nm: "\<not> muteEnabled ?s1" by (simp add: m)
      then have a: "\<not> muteEnabled ?u" by (simp add: g(3))
      have b: "2 \<le> alarm.distance ?u" "alarm.distance ?u \<le> 10"
        using that(3,4) by (simp_all add: dd)
      from handleCarBackupBuzzer_beep [OF a b] readMuteButton_unmuted [OF nm] that(2)
      show ?thesis by (simp add: bt g handleCarBackupBuzzer_display)
    qed
    have q3: "buzzerState (buzzerTask now s3) \<and> buzzerPin (buzzerTask now s3)
        \<and> buzzerInterval (buzzerTask now s3) = buzzerInterval t"
      if "\<not> muteEnabled (buzzerTask now s3)" "buzzerInterval t \<le> now - previousBuzzerMillis t"
        "0 < alarm.distance (buzzerTask now s3)" "alarm.distance (buzzerTask now s3) < 2"
    proof -
      from that(1) have a: "\<not> muteEnabled ?u" by (simp add: m g(3))
      have b: "0 < alarm.distance ?u" "alarm.distance ?u < 2"
        using that(3,4) by (simp_all add: dd)
      from that(2) show ?thesis
        by (simp add: bt handleCarBackupBuzzer_danger [OF a b] g)
    qed
    have q4: "\<not> buzzerState (buzzerTask now s3) \<and> \<not> buzzerPin (buzzerTask now s3)
        \<and> buzzerInterval (buzzerTask now s3) = 200"
      if "\<not> muteEnabled (buzzerTask now s3)" "buzzerInterval t \<le> now - previousBuzzerMillis t"
        "alarm.distance (buzzerTask now s3) = 0 \<or> 10 < alarm.distance (buzzerTask now s3)"
    proof -
      from that(1) have a: "\<not> muteEnabled ?u" by (simp add: m g(3))
      have b: "alarm.distance ?u = 0 \<or> 10 < alarm.distance ?u"
        using that(3) by (simp add: dd)
      from that(2) show ?thesis
        by (simp add: bt handleCarBackupBuzzer_off [OF a b])
    qed
    have q5: "muteEnabled (buzzerTask now s3)
            = (if \<not> muteButtonPin i \<and> \<not> alarm.lastButtonState t then \<not> muteEnabled t
               else muteEnabled t)"
      by (simp add: m readMuteButton_muteEnabled)
    have q6: "alarm.distance (buzzerTask now s3)
            = (if 100 \<le> now - previousSensorMillis t then min (measureDistance (echoPin i)) 9999
               else alarm.distance t)"
      by (simp add: dd f3(6) sensorTask_distance readMuteButton_stamps readMuteButton_other
          sensorInterval_def)
    from q1 q2 q3 q4 q5 q6 show ?thesis unfolding l by blast
  qed
  from p1 p2 p3 p4 p5 beep_interval_ends show ?thesis by blast
qed

text \<open>
  The theorem at work: the handler at 6 cm, at 1 cm and at 50 cm with mute off, and the
  pass of \<open>loop()\<close> 200 ms after \<open>setup()\<close> with the stored distance at 6 cm, the button
  up and no distance sample due.
\<close>

theorem C3_beep_interval_witness:
  "\<not> muteEnabled (setup3\<lparr>alarm.distance := 6\<rparr>)
 \<and> uint (buzzerInterval (handleCarBackupBuzzer (setup3\<lparr>alarm.distance := 6\<rparr>))) = 450
 \<and> buzzerPin (handleCarBackupBuzzer (setup3\<lparr>alarm.distance := 6\<rparr>))
 \<and> arduino_map 3 2 10 100 800 < arduino_map 4 2 10 100 800
 \<and> buzzerPin (handleCarBackupBuzzer (setup3\<lparr>alarm.distance := 1\<rparr>))
 \<and> buzzerInterval (handleCarBackupBuzzer (setup3\<lparr>alarm.distance := 50, buzzerInterval := 450\<rparr>))
     = 200
 \<and> (\<exists>t'. loop3 \<lparr>elapsed = 200, muteButtonPin = True, echoPin = 350\<rparr>
            (setup3\<lparr>alarm.distance := 6, previousSensorMillis := 150\<rparr>) = Inr t'
        \<and> buzzerState t' \<and> buzzerPin t' \<and> uint (buzzerInterval t') = 450)"
proof -
  let ?a = "setup3\<lparr>alarm.distance := 6\<rparr>"
  let ?b = "setup3\<lparr>alarm.distance := 1\<rparr>"
  let ?c = "setup3\<lparr>alarm.distance := 50, buzzerInterval := 450\<rparr>"
  let ?t = "setup3\<lparr>alarm.distance := 6, previousSensorMillis := 150\<rparr>"
  let ?i = "\<lparr>elapsed = 200, muteButtonPin = True, echoPin = 350\<rparr>"
  have su: "\<not> muteEnabled setup3" "\<not> buzzerState setup3" "buzzerInterval setup3 = 200"
    "previousBuzzerMillis setup3 = 0" "clock setup3 = 0" "display_ok setup3"
    by (simp_all add: setup3_def display_ok_def)
  have a: "\<not> muteEnabled ?a" "2 \<le> alarm.distance ?a" "alarm.distance ?a \<le> 10"
    "\<not> buzzerState ?a" "alarm.distance ?a = 6"
    using su by simp_all
  have b: "\<not> muteEnabled ?b" "0 < alarm.distance ?b" "alarm.distance ?b < 2"
    using su by simp_all
  have c: "\<not> muteEnabled ?c" "alarm.distance ?c = 0 \<or> 10 < alarm.distance ?c"
    using su by simp_all
  have m: "arduino_map 6 2 10 100 800 = 450" by (simp add: beep_interval_formula)
  have t: "display_ok ?t" "0 \<le> sint (echoPin ?i)" "(200 :: ulong) = clock ?t + elapsed ?i"
    "buzzerInterval ?t \<le> 200 - previousBuzzerMillis ?t" "\<not> buzzerState ?t"
    "\<not> muteEnabled ?t" "muteButtonPin ?i" "\<not> (100 :: ulong) \<le> 200 - previousSensorMillis ?t"
    "alarm.distance ?t = 6"
    using su by (simp_all add: display_ok_def)
  have n: "(2 :: int) \<le> 3 \<and> (3 :: int) < 4 \<and> (4 :: int) \<le> 10" by simp
  note A = C3_beep_interval [of ?a 3 4 ?t ?i 200]
  note B = C3_beep_interval [of ?b 3 4 ?t ?i 200]
  note C = C3_beep_interval [of ?c 3 4 ?t ?i 200]
  have w1: "uint (buzzerInterval (handleCarBackupBuzzer ?a)) = 450
      \<and> buzzerPin (handleCarBackupBuzzer ?a)"
    using A [THEN conjunct1, THEN mp, OF conjI [OF a(1) conjI [OF a(2) a(3)]]] a(4,5) m
    by simp
  have w1': "arduino_map 3 2 10 100 800 < arduino_map 4 2 10 100 800"
    by (rule A [THEN conjunct2, THEN conjunct2, THEN conjunct2, THEN conjunct1, THEN mp, OF n])
  have w2: "buzzerPin (handleCarBackupBuzzer ?b)"
    using B [THEN conjunct2, THEN conjunct2, THEN conjunct2, THEN conjunct2, THEN conjunct1,
        THEN mp, OF conjI [OF b(1) conjI [OF b(2) b(3)]]]
    by (rule conjunct1)
  have w3: "buzzerInterval (handleCarBackupBuzzer ?c) = 200"
    using C [THEN conjunct2, THEN conjunct2, THEN conjunct2, THEN conjunct2, THEN conjunct2,
        THEN conjunct1, THEN mp, OF conjI [OF c(1) c(2)]]
    by (elim conjE)
  have w4: "\<exists>t'. loop3 ?i ?t = Inr t'
        \<and> buzzerState t' \<and> buzzerPin t' \<and> uint (buzzerInterval t') = 450"
  proof -
    from A [THEN conjunct2, THEN conjunct2, THEN conjunct2, THEN conjunct2, THEN conjunct2,
        THEN conjunct2, THEN mp, OF conjI [OF t(1) conjI [OF t(2) t(3)]]]
    obtain t'
      where t': "loop3 ?i ?t = Inr t'"
        and me: "muteEnabled t'
            = (if \<not> muteButtonPin ?i \<and> \<not> alarm.lastButtonState ?t then \<not> muteEnabled ?t
               else muteEnabled ?t)"
        and di: "alarm.distance t'
            = (if 100 \<le> 200 - previousSensorMillis ?t then min (measureDistance (echoPin ?i)) 9999
               else alarm.distance ?t)"
        and r: "\<not> muteEnabled t' \<and> buzzerInterval ?t \<le> 200 - previousBuzzerMillis ?t
              \<and> 2 \<le> alarm.distance t' \<and> alarm.distance t' \<le> 10 \<longrightarrow>
              buzzerState t' = (\<not> buzzerState ?t) \<and> buzzerPin t' = (\<not> buzzerState ?t)
            \<and> uint (buzzerInterval t') = arduino_map (alarm.distance t') 2 10 100 800"
      by (elim exE conjE)
    from me t(6,7) have nm: "\<not> muteEnabled t'" by simp
    from di t(8,9) have d6: "alarm.distance t' = 6" by simp
    have "buzzerState t' = (\<not> buzzerState ?t) \<and> buzzerPin t' = (\<not> buzzerState ?t)
            \<and> uint (buzzerInterval t') = arduino_map (alarm.distance t') 2 10 100 800"
      by (rule r [THEN mp]) (simp add: nm d6 su)
    then have "buzzerState t' \<and> buzzerPin t' \<and> uint (buzzerInterval t') = 450"
      using t(5) m d6 by simp
    with t' show ?thesis by blast
  qed
  from a(1) w1 w1' w2 w3 w4 show ?thesis by (intro conjI) simp_all
qed


section \<open>The stepper profile (C5)\<close>

lemma singleStep_fields:
  "motorTrace (singleStep d s) = motorTrace s @ [Step (if d > 0 then 1 else - 1)]"
  "currentMotorPosition (singleStep d s)
     = currentMotorPosition s + (if d > 0 then 1 else - 1)"
  "clock (singleStep d s) = clock s"
  "motorMoving (singleStep d s) = motorMoving s"
  by (simp_all add: singleStep_def Let_def)

lemma delayMicroseconds_fields:
  "motorTrace (delayMicroseconds us s) = motorTrace s @ [DelayMicroseconds us]"
  "currentMotorPosition (delayMicroseconds us s) = currentMotorPosition s"
  "clock (delayMicroseconds us s) = clock s + of_nat (us div 1000)"
  "motorMoving (delayMicroseconds us s) = motorMoving s"
  by (simp_all add: delayMicroseconds_def delay_def)

text \<open>The loop from \<open>i\<close> makes \<open>n - i\<close> steps, none if \<open>n \<le> i\<close>.\<close>

lemma stepLoop_done: "n \<le> i \<Longrightarrow> stepLoop i n d us s = s"
  by (subst stepLoop.simps) simp

lemma stepLoop_step:
  "i < n \<Longrightarrow>
   stepLoop i n d us s = stepLoop (i + 1) n d us (delayMicroseconds us (singleStep d s))"
  by (subst stepLoop.simps) simp

lemma stepLoop_effect:
  "motorTrace (stepLoop i n d us s)
      = motorTrace s
        @ concat (replicate (nat (n - i)) [Step (if d > 0 then 1 else - 1), DelayMicroseconds us])
   \<and> currentMotorPosition (stepLoop i n d us s)
      = currentMotorPosition s + (if d > 0 then 1 else - 1) * of_nat (nat (n - i))
   \<and> clock (stepLoop i n d us s) = clock s + of_nat (us div 1000) * of_nat (nat (n - i))
   \<and> motorMoving (stepLoop i n d us s) = motorMoving s"
proof (induction i n d us s rule: stepLoop.induct)
  case (1 i n d us s)
  show ?case
  proof (cases "i < n")
    case True
    then have k: "nat (n - i) = Suc (nat (n - (i + 1)))" by simp
    from "1.IH" [OF True] True show ?thesis
      unfolding stepLoop_step [OF True] k
      by (simp add: singleStep_fields delayMicroseconds_fields algebra_simps)
  next
    case False
    then show ?thesis by (simp add: stepLoop_done)
  qed
qed

lemma profile_phases:
  assumes "0 \<le> (steps :: int)"
  shows "0 \<le> min (steps div 4) 50"
    and "0 \<le> steps - min (steps div 4) 50 - min (steps div 4) 50"
proof -
  define q where "q = steps div 4"
  define r where "r = steps mod 4"
  have e: "4 * q + r = steps" by (simp add: q_def r_def)
  have r: "0 \<le> r" by (simp add: r_def)
  have q: "0 \<le> q" using assms by (simp add: q_def pos_imp_zdiv_nonneg_iff)
  show "0 \<le> min (steps div 4) 50" using q by (simp add: q_def [symmetric])
  have "min q 50 \<le> q" by simp
  with e r q show "0 \<le> steps - min (steps div 4) 50 - min (steps div 4) 50"
    unfolding q_def [symmetric] by linarith
qed

lemma stepMotor_effect:
  assumes "\<not> motorMoving s" and "0 \<le> steps"
    and "a = min (steps div 4) 50" and "c = steps - a - a"
    and "d = (if direction > 0 then 1 else - 1)"
  shows "motorTrace (stepMotor steps direction s)
           = motorTrace s
             @ concat (replicate (nat a) [Step d, DelayMicroseconds 2000])
             @ concat (replicate (nat c) [Step d, DelayMicroseconds 1000])
             @ concat (replicate (nat a) [Step d, DelayMicroseconds 2000])"
    and "currentMotorPosition (stepMotor steps direction s)
           = currentMotorPosition s + word_of_int (d * steps)"
    and "clock (stepMotor steps direction s)
           = clock s + word_of_int (2 * a + c + 2 * a)"
    and "\<not> motorMoving (stepMotor steps direction s)"
proof -
  have a: "0 \<le> a" and c: "0 \<le> c"
    using profile_phases [OF assms(2)] by (simp_all add: assms(3,4))
  let ?s0 = "s\<lparr>motorMoving := True\<rparr>"
  let ?s1 = "stepLoop 0 a direction 2000 ?s0"
  let ?s2 = "stepLoop 0 c direction 1000 ?s1"
  let ?s3 = "stepLoop 0 a direction 2000 ?s2"
  have sm: "stepMotor steps direction s = ?s3\<lparr>motorMoving := False\<rparr>"
    using assms(1,2) by (simp add: stepMotor_def Let_def cdiv_nonneg assms(3,4))
  note e1 = stepLoop_effect [of 0 a direction 2000 ?s0]
    and e2 = stepLoop_effect [of 0 c direction 1000 ?s1]
    and e3 = stepLoop_effect [of 0 a direction 2000 ?s2]
  show "motorTrace (stepMotor steps direction s)
           = motorTrace s
             @ concat (replicate (nat a) [Step d, DelayMicroseconds 2000])
             @ concat (replicate (nat c) [Step d, DelayMicroseconds 1000])
             @ concat (replicate (nat a) [Step d, DelayMicroseconds 2000])"
    using e1 e2 e3 by (simp add: sm assms(5))
  have n: "nat a + nat c + nat a = nat steps"
    using a c by (simp add: assms(4) nat_add_distrib [symmetric])
  have w: "(of_nat (nat a) + of_nat (nat c) + of_nat (nat a) :: 16 word) = word_of_int steps"
    unfolding of_nat_add [symmetric] n using assms(2) by simp
  have "currentMotorPosition (stepMotor steps direction s)
      = currentMotorPosition s
        + (if direction > 0 then 1 else - 1) * (of_nat (nat a) + of_nat (nat c) + of_nat (nat a))"
    using e1 e2 e3 by (simp add: sm algebra_simps)
  then show "currentMotorPosition (stepMotor steps direction s)
           = currentMotorPosition s + word_of_int (d * steps)"
    unfolding w by (simp add: assms(5))
  have "clock (stepMotor steps direction s)
      = clock s + 2 * of_nat (nat a) + of_nat (nat c) + 2 * of_nat (nat a)"
    using e1 e2 e3 by (simp add: sm)
  then show "clock (stepMotor steps direction s)
           = clock s + word_of_int (2 * a + c + 2 * a)"
    using a c by simp
  show "\<not> motorMoving (stepMotor steps direction s)" by (simp add: sm)
qed

lemma stepMotor_busy: "motorMoving s \<Longrightarrow> stepMotor steps direction s = s"
  by (simp add: stepMotor_def)

lemma setup5_motor:
  "\<not> motorMoving (setup5 power_on5)" "currentMotorPosition (setup5 power_on5) = 0"
  "motorTrace (setup5 power_on5) = []" "clock (setup5 power_on5) = 1000"
  by (simp_all add: setup5_def power_on5_def power_on4_def phase4.extend_def
      initializeLCD_def delay_def millis_def Let_def)

lemma stepArguments_append:
  "stepArguments (xs @ ys) = stepArguments xs @ stepArguments ys"
  by (induction xs rule: stepArguments.induct) simp_all

lemma stepArguments_phase:
  "stepArguments (concat (replicate n [Step d, DelayMicroseconds us])) = replicate n d"
  by (induction n) simp_all

text \<open>
  A 16-bit \<open>int\<close> moved by \<open>k\<close>, read as an integer, is the old integer plus \<open>k\<close> as long
  as that lies in the range of the type.
\<close>

lemma position_in_range:
  fixes w :: "16 word"
  assumes "- 32768 \<le> sint w + k" and "sint w + k \<le> 32767"
  shows "sint (w + word_of_int k) = sint w + k"
proof -
  have "w + word_of_int k = word_of_int (sint w + k)" by simp
  then have "sint (w + word_of_int k) = signed_take_bit 15 (sint w + k)"
    by (simp only: sint_sbintrunc') simp
  also have "\<dots> = sint w + k"
    using assms by (intro signed_take_bit_int_eq_self) simp_all
  finally show ?thesis .
qed

text \<open>
  C5. For every call \<open>stepMotor(steps, direction)\<close> with \<open>steps \<ge> 0\<close> and a direction of
  1 or -1 (the directions the sketch passes), made while no movement is in progress, with
  \<open>a = min(steps / 4, 50)\<close>: what the call does to the motor is, in this order, an
  acceleration phase of \<open>a\<close> steps, each followed by a wait of 2000 microseconds, a
  constant-speed phase of the remaining \<open>steps - 2a\<close> steps, each followed by a wait of
  1000 microseconds, and a deceleration phase of \<open>a\<close> steps, each followed by a wait of
  2000 microseconds; neither phase has a negative length; the single-step commands
  issued are exactly \<open>steps\<close> commands \<open>step(direction)\<close>; \<open>currentMotorPosition\<close> changes
  by \<open>direction * steps\<close>, in the arithmetic of its type and, when the new position lies
  in the range of that type, as an integer; and \<open>motorMoving\<close> is false on return.
\<close>

theorem C5_stepper_profile:
  assumes "\<not> motorMoving s" and "0 \<le> steps" and "direction = 1 \<or> direction = - 1"
    and "a = min (steps div 4) 50"
  shows "0 \<le> a \<and> 0 \<le> steps - a - a
    \<and> motorTrace (stepMotor steps direction s)
        = motorTrace s
          @ concat (replicate (nat a) [Step direction, DelayMicroseconds 2000])
          @ concat (replicate (nat (steps - a - a)) [Step direction, DelayMicroseconds 1000])
          @ concat (replicate (nat a) [Step direction, DelayMicroseconds 2000])
    \<and> stepArguments (motorTrace (stepMotor steps direction s))
        = stepArguments (motorTrace s) @ replicate (nat steps) direction
    \<and> currentMotorPosition (stepMotor steps direction s)
        = currentMotorPosition s + word_of_int (direction * steps)
    \<and> (- 32768 \<le> sint (currentMotorPosition s) + direction * steps
        \<and> sint (currentMotorPosition s) + direction * steps \<le> 32767 \<longrightarrow>
          sint (currentMotorPosition (stepMotor steps direction s))
            = sint (currentMotorPosition s) + direction * steps)
    \<and> \<not> motorMoving (stepMotor steps direction s)"
proof -
  have d: "direction = (if direction > 0 then 1 else - 1)" using assms(3) by auto
  note e = stepMotor_effect [OF assms(1,2,4) refl d]
  have a: "0 \<le> a" and c: "0 \<le> steps - a - a"
    using profile_phases [OF assms(2)] by (simp_all add: assms(4))
  have n: "nat a + nat (steps - a - a) + nat a = nat steps"
    using a c by (simp add: nat_add_distrib [symmetric])
  have "stepArguments (motorTrace (stepMotor steps direction s))
      = stepArguments (motorTrace s)
        @ replicate (nat a + nat (steps - a - a) + nat a) direction"
    unfolding e(1)
    by (simp only: stepArguments_append stepArguments_phase replicate_add append_assoc)
  then have l: "stepArguments (motorTrace (stepMotor steps direction s))
      = stepArguments (motorTrace s) @ replicate (nat steps) direction"
    unfolding n .
  have p: "sint (currentMotorPosition (stepMotor steps direction s))
            = sint (currentMotorPosition s) + direction * steps"
    if "- 32768 \<le> sint (currentMotorPosition s) + direction * steps"
      and "sint (currentMotorPosition s) + direction * steps \<le> 32767"
    unfolding e(2) using that by (rule position_in_range)
  from a c e(1) l e(2) p e(4) show ?thesis by blast
qed

text \<open>
  The theorem at work on the shortest manual movement, \<open>stepMotor(10, -1)\<close> after
  \<open>setup()\<close>: two slow steps, six fast steps and two slow steps backwards, the position
  going from 0 to -10.
\<close>

theorem C5_stepper_profile_witness:
  "\<not> motorMoving (setup5 power_on5) \<and> (0 :: int) \<le> 10
 \<and> ((- 1 :: int) = 1 \<or> (- 1 :: int) = - 1) \<and> (2 :: int) = min (10 div 4) 50
 \<and> motorTrace (stepMotor 10 (- 1) (setup5 power_on5))
     = [Step (- 1), DelayMicroseconds 2000, Step (- 1), DelayMicroseconds 2000,
        Step (- 1), DelayMicroseconds 1000, Step (- 1), DelayMicroseconds 1000,
        Step (- 1), DelayMicroseconds 1000, Step (- 1), DelayMicroseconds 1000,
        Step (- 1), DelayMicroseconds 1000, Step (- 1), DelayMicroseconds 1000,
        Step (- 1), DelayMicroseconds 2000, Step (- 1), DelayMicroseconds 2000]
 \<and> stepArguments (motorTrace (stepMotor 10 (- 1) (setup5 power_on5))) = replicate 10 (- 1)
 \<and> currentMotorPosition (stepMotor 10 (- 1) (setup5 power_on5)) = - 10
 \<and> sint (currentMotorPosition (stepMotor 10 (- 1) (setup5 power_on5))) = - 10
 \<and> \<not> motorMoving (stepMotor 10 (- 1) (setup5 power_on5))"
proof -
  have h1: "(0 :: int) \<le> 10" and h2: "(- 1 :: int) = 1 \<or> (- 1 :: int) = - 1"
    and h3: "(2 :: int) = min (10 div 4) 50"
    by simp_all
  note T = C5_stepper_profile [OF setup5_motor(1) h1 h2 h3]
  have t1: "motorTrace (stepMotor 10 (- 1) (setup5 power_on5))
     = [Step (- 1), DelayMicroseconds 2000, Step (- 1), DelayMicroseconds 2000,
        Step (- 1), DelayMicroseconds 1000, Step (- 1), DelayMicroseconds 1000,
        Step (- 1), DelayMicroseconds 1000, Step (- 1), DelayMicroseconds 1000,
        Step (- 1), DelayMicroseconds 1000, Step (- 1), DelayMicroseconds 1000,
        Step (- 1), DelayMicroseconds 2000, Step (- 1), DelayMicroseconds 2000]"
    using T [THEN conjunct2, THEN conjunct2, THEN conjunct1]
    by (simp add: setup5_motor eval_nat_numeral)
  have t2: "stepArguments (motorTrace (stepMotor 10 (- 1) (setup5 power_on5)))
     = replicate 10 (- 1)"
    using T [THEN conjunct2, THEN conjunct2, THEN conjunct2, THEN conjunct1]
    by (simp only: t1 setup5_motor stepArguments.simps append_Nil nat_numeral)
  have t3: "currentMotorPosition (stepMotor 10 (- 1) (setup5 power_on5)) = - 10"
    using T [THEN conjunct2, THEN conjunct2, THEN conjunct2, THEN conjunct2, THEN conjunct1]
    by (simp add: setup5_motor)
  have r: "- 32768 \<le> sint (currentMotorPosition (setup5 power_on5)) + - 1 * 10
      \<and> sint (currentMotorPosition (setup5 power_on5)) + - 1 * 10 \<le> 32767"
    by (simp add: setup5_motor)
  have t4: "sint (currentMotorPosition (stepMotor 10 (- 1) (setup5 power_on5))) = - 10"
    using T [THEN conjunct2, THEN conjunct2, THEN conjunct2, THEN conjunct2, THEN conjunct2,
        THEN conjunct1, THEN mp, OF r]
    by (simp add: setup5_motor)
  have t5: "\<not> motorMoving (stepMotor 10 (- 1) (setup5 power_on5))"
    using T [THEN conjunct2, THEN conjunct2, THEN conjunct2, THEN conjunct2, THEN conjunct2,
        THEN conjunct2] .
  from setup5_motor(1) h1 h2 h3 t1 t2 t3 t4 t5 show ?thesis by blast
qed

section \<open>The buttons are edge-detected, not debounced (C9)\<close>

lemma loop2_button:
  "serial (loop2 i s)
     = serial s @ (if \<not> BUTTON_PIN i \<and> \<not> phase2.lastButtonState s
                   then [Button_Pressed (\<not> phase2.ledState s)] else [])"
  "phase2.lastButtonState (loop2 i s) = (\<not> BUTTON_PIN i)"
  by (simp_all add: loop2_def readButton_def toggleLED_def triggerBuzzer_def handleBuzzer_def
      println_def delay_def millis_def Let_def)

lemma run2_presses:
  "length (serial (run2 is s))
     = length (serial s)
       + pressed_edges (phase2.lastButtonState s) (map (\<lambda>i. \<not> BUTTON_PIN i) is)"
proof (induction "is" arbitrary: s)
  case Nil
  show ?case by simp
next
  case (Cons i "is")
  show ?case by (simp add: Cons.IH loop2_button)
qed

lemma display_number_button:
  assumes "display_number s = Inr s'"
  shows "serial s' = serial s" and "alarm.lastButtonState s' = alarm.lastButtonState s"
  using assms
  by (auto simp add: display_number_def cathode_high_def Let_def split: if_splits)

lemma displayTask_button:
  assumes "displayTask c s = Inr s'"
  shows "serial s' = serial s" and "alarm.lastButtonState s' = alarm.lastButtonState s"
proof -
  have "serial s' = serial s \<and> alarm.lastButtonState s' = alarm.lastButtonState s"
  proof (cases "displayInterval \<le> c - previousDisplayMillis s")
    case True
    with assms have "display_number
        (s\<lparr>executed := executed s @ [Display_multiplexing], previousDisplayMillis := c\<rparr>) = Inr s'"
      by (simp add: displayTask_def)
    from display_number_button [OF this] show ?thesis by simp
  next
    case False
    with assms show ?thesis by (simp add: displayTask_def)
  qed
  then show "serial s' = serial s" and "alarm.lastButtonState s' = alarm.lastButtonState s"
    by simp_all
qed

lemma readMuteButton_button:
  "serial (readMuteButton b s)
     = serial s @ (if \<not> b \<and> \<not> alarm.lastButtonState s then [Mute (\<not> muteEnabled s)] else [])"
  "alarm.lastButtonState (readMuteButton b s) = (\<not> b)"
  by (simp_all add: readMuteButton_def toggleMute_def println_def Let_def)

lemma sensorTask_button:
  "serial (sensorTask c p s) = serial s"
  "alarm.lastButtonState (sensorTask c p s) = alarm.lastButtonState s"
  by (simp_all add: sensorTask_def sampleDistance_eq break_number_def)

lemma buzzerTask_button:
  "serial (buzzerTask c s) = serial s"
  "alarm.lastButtonState (buzzerTask c s) = alarm.lastButtonState s"
  by (simp_all add: buzzerTask_def handleCarBackupBuzzer_def Let_def)

lemma loop3_button:
  assumes "loop3 i s = Inr s'"
  shows "serial s'
     = serial s @ (if \<not> muteButtonPin i \<and> \<not> alarm.lastButtonState s
                   then [Mute (\<not> muteEnabled s)] else [])"
    and "alarm.lastButtonState s' = (\<not> muteButtonPin i)"
proof -
  let ?c = "clock s + elapsed i"
  let ?s2 = "sensorTask ?c (echoPin i) (readMuteButton (muteButtonPin i) (s\<lparr>clock := ?c\<rparr>))"
  from assms obtain t where t: "displayTask ?c ?s2 = Inr t" and s': "s' = buzzerTask ?c t"
    by (auto simp add: loop3_tasks split: sum.splits)
  from displayTask_button [OF t] show "serial s'
     = serial s @ (if \<not> muteButtonPin i \<and> \<not> alarm.lastButtonState s
                   then [Mute (\<not> muteEnabled s)] else [])"
    and "alarm.lastButtonState s' = (\<not> muteButtonPin i)"
    by (simp_all add: s' buzzerTask_button sensorTask_button readMuteButton_button)
qed

lemma run3_presses:
  assumes "run3 is s = Inr s'"
  shows "length (serial s')
     = length (serial s)
       + pressed_edges (alarm.lastButtonState s) (map (\<lambda>i. \<not> muteButtonPin i) is)"
  using assms
proof (induction "is" arbitrary: s)
  case Nil
  then show ?case by simp
next
  case (Cons i "is")
  from Cons.prems obtain t where t: "loop3 i s = Inr t" and r: "run3 is t = Inr s'"
    by (auto split: sum.splits)
  from Cons.IH [OF r] loop3_button [OF t] show ?case by simp
qed

lemma pressed_edges_held: "pressed_edges True (replicate n True) = 0"
  by (induction n) simp_all

text \<open>
  C9 as the spec states it fails: the polls of one press whose contact bounces once
  between two polls (up, down, up, down, down) register two presses, in phase 2 (polls
  10 ms apart) and in the proximity alarm.
\<close>

theorem C9_bounce_counterexample:
  "length (serial (run2
      [\<lparr>elapsed = 0, BUTTON_PIN = True\<rparr>, \<lparr>elapsed = 0, BUTTON_PIN = False\<rparr>,
       \<lparr>elapsed = 0, BUTTON_PIN = True\<rparr>, \<lparr>elapsed = 0, BUTTON_PIN = False\<rparr>,
       \<lparr>elapsed = 0, BUTTON_PIN = False\<rparr>] setup2)) = 2
 \<and> (\<exists>s'. run3
      [\<lparr>elapsed = 1, muteButtonPin = True, echoPin = 7000\<rparr>,
       \<lparr>elapsed = 1, muteButtonPin = False, echoPin = 7000\<rparr>,
       \<lparr>elapsed = 1, muteButtonPin = True, echoPin = 7000\<rparr>,
       \<lparr>elapsed = 1, muteButtonPin = False, echoPin = 7000\<rparr>,
       \<lparr>elapsed = 1, muteButtonPin = False, echoPin = 7000\<rparr>] setup3 = Inr s'
      \<and> length (serial s') = 2)"
proof -
  let ?js = "[\<lparr>elapsed = 1, muteButtonPin = True, echoPin = 7000\<rparr>,
       \<lparr>elapsed = 1, muteButtonPin = False, echoPin = 7000\<rparr>,
       \<lparr>elapsed = 1, muteButtonPin = True, echoPin = 7000\<rparr>,
       \<lparr>elapsed = 1, muteButtonPin = False, echoPin = 7000\<rparr>,
       \<lparr>elapsed = 1, muteButtonPin = False, echoPin = 7000\<rparr>]"
  have s2: "serial setup2 = []" "phase2.lastButtonState setup2" by (simp_all add: setup2_def)
  have s3: "serial setup3 = []" "alarm.lastButtonState setup3" by (simp_all add: setup3_def)
  have a: "length (serial (run2
      [\<lparr>elapsed = 0, BUTTON_PIN = True\<rparr>, \<lparr>elapsed = 0, BUTTON_PIN = False\<rparr>,
       \<lparr>elapsed = 0, BUTTON_PIN = True\<rparr>, \<lparr>elapsed = 0, BUTTON_PIN = False\<rparr>,
       \<lparr>elapsed = 0, BUTTON_PIN = False\<rparr>] setup2)) = 2"
    unfolding run2_presses by (simp add: s2)
  have "\<forall>i \<in> set ?js. 0 \<le> sint (echoPin i)" by simp
  from run3_ok [OF setup3_ok this] obtain s' where s': "run3 ?js setup3 = Inr s'" by blast
  from run3_presses [OF s'] have "length (serial s') = 2" by (simp add: s3)
  with s' a show ?thesis by blast
qed

text \<open>
  C9, amended. The sketches do not filter bounces; \<open>readButton\<close> (phase 2) and
  \<open>readMuteButton\<close> (proximity alarm) register a press exactly when a poll reads the
  button down and the poll before it read the button up. Through any run, the number
  of presses registered (lines "Button Pressed! ..." or "Mute: ..." printed) is the
  number of released-to-pressed transitions between successive polls, spurious ones
  included; a button read down at every poll after a poll that read it up is
  registered once.
\<close>

theorem C9_presses_are_polled_edges:
  "length (serial (run2 is s))
     = length (serial s)
       + pressed_edges (phase2.lastButtonState s) (map (\<lambda>i. \<not> BUTTON_PIN i) is)
 \<and> (run3 js t = Inr t' \<longrightarrow>
      length (serial t')
        = length (serial t)
          + pressed_edges (alarm.lastButtonState t) (map (\<lambda>i. \<not> muteButtonPin i) js))
 \<and> pressed_edges False (replicate (Suc n) True) = 1"
proof -
  have "pressed_edges False (replicate (Suc n) True) = 1"
    by (simp add: pressed_edges_held)
  with run2_presses [of "is" s] run3_presses [of js t t'] show ?thesis by blast
qed

text \<open>
  The theorem at work: in the proximity alarm, a poll that reads the button up and
  three polls that read it down register one press.
\<close>

theorem C9_presses_are_polled_edges_witness:
  "\<exists>t'. run3
      [\<lparr>elapsed = 1, muteButtonPin = True, echoPin = 7000\<rparr>,
       \<lparr>elapsed = 1, muteButtonPin = False, echoPin = 7000\<rparr>,
       \<lparr>elapsed = 1, muteButtonPin = False, echoPin = 7000\<rparr>,
       \<lparr>elapsed = 1, muteButtonPin = False, echoPin = 7000\<rparr>] setup3 = Inr t'
      \<and> length (serial t') = 1"
proof -
  let ?js = "[\<lparr>elapsed = 1, muteButtonPin = True, echoPin = 7000\<rparr>,
       \<lparr>elapsed = 1, muteButtonPin = False, echoPin = 7000\<rparr>,
       \<lparr>elapsed = 1, muteButtonPin = False, echoPin = 7000\<rparr>,
       \<lparr>elapsed = 1, muteButtonPin = False, echoPin = 7000\<rparr>]"
  have s3: "serial setup3 = []" "alarm.lastButtonState setup3" by (simp_all add: setup3_def)
  have "\<forall>i \<in> set ?js. 0 \<le> sint (echoPin i)" by simp
  from run3_ok [OF setup3_ok this] obtain t' where t': "run3 ?js setup3 = Inr t'" by blast
  from C9_presses_are_polled_edges [of "[]" setup2 ?js setup3 t' 0] t'
  have "length (serial t') = 1" by (simp add: s3)
  with t' show ?thesis by blast
qed

section \<open>The millisecond clock wraps around (C8)\<close>

lemma delay_no_wrap:
  fixes s :: "'a board_scheme"
  assumes "unat (millis s) + unat n < 2 ^ 32"
  shows "millis s \<le> millis (delay n s)"
  using assms by (simp add: millis_def delay_def no_olen_add_nat)

lemma delay_difference:
  fixes s :: "'a board_scheme"
  shows "millis (delay n s) - millis s = n"
  by (simp add: millis_def delay_def)

lemma loop1_clock: "millis (loop1 i s) = millis s + elapsed i + 10"
  by (simp add: loop1_def blinkLED_def delay_def millis_def Let_def)

lemma blinkLED_elapsed:
  assumes "millis s = previousBlinkTime s + d"
  shows "phase1.ledState (blinkLED s) = (if 500 \<le> d then \<not> phase1.ledState s else phase1.ledState s)"
    and "previousBlinkTime (blinkLED s) = (if 500 \<le> d then millis s else previousBlinkTime s)"
  using assms by (simp_all add: blinkLED_def Let_def BLINK_INTERVAL_def)

text \<open>
  C8 as the spec states it fails when the 32-bit counter wraps: a pass of the phase 1
  loop that starts 6 ms before the counter's end reads 4294967290, and after its
  \<open>delay(10)\<close> the next read is 4.
\<close>

theorem C8_wrap_counterexample:
  "millis (setup1\<lparr>clock := 4294967290\<rparr>) = 4294967290
 \<and> millis (loop1 \<lparr>elapsed = 0\<rparr> (setup1\<lparr>clock := 4294967290\<rparr>)) = 4
 \<and> \<not> millis (setup1\<lparr>clock := 4294967290\<rparr>)
       \<le> millis (loop1 \<lparr>elapsed = 0\<rparr> (setup1\<lparr>clock := 4294967290\<rparr>))"
  by (simp add: loop1_clock) (simp add: millis_def)

text \<open>
  C8, amended. The millisecond clock is a 32-bit counter that wraps to 0 after \<open>2 ^ 32\<close>
  ms: of two successive reads the later one is at least the earlier one if the counter
  does not pass its end in between, and in every case the unsigned difference of the
  two reads is the time gone by (modulo \<open>2 ^ 32\<close>). So a pass of the phase 1 loop moves
  the reading on by the time between passes plus its \<open>delay(10)\<close>, and \<open>blinkLED\<close>,
  called \<open>d\<close> ms after the last toggle, toggles exactly when \<open>d \<ge> 500\<close>, also when the
  counter has wrapped since.
\<close>

theorem C8_clock_modulo:
  fixes s :: "'a board_scheme" and p :: phase1
  shows
  "(unat (millis s) + unat n < 2 ^ 32 \<longrightarrow> millis s \<le> millis (delay n s))
 \<and> millis (delay n s) - millis s = n
 \<and> millis (loop1 i p) - millis p = elapsed i + 10
 \<and> (millis p = previousBlinkTime p + d \<longrightarrow>
      phase1.ledState (blinkLED p) = (if 500 \<le> d then \<not> phase1.ledState p else phase1.ledState p)
    \<and> previousBlinkTime (blinkLED p) = (if 500 \<le> d then millis p else previousBlinkTime p))"
proof -
  have "millis (loop1 i p) - millis p = elapsed i + 10" by (simp add: loop1_clock)
  with delay_no_wrap [of s n] delay_difference [of n s] blinkLED_elapsed [of p d]
  show ?thesis by blast
qed

text \<open>
  The theorem at work: a delay of 10 ms at clock 1000, and \<open>blinkLED\<close> at clock 500,
  which is 506 ms after a toggle made 6 ms before the counter's end.
\<close>

theorem C8_clock_modulo_witness:
  "unat (millis (setup1\<lparr>clock := 1000\<rparr>)) + unat (10 :: ulong) < 2 ^ 32
 \<and> millis (setup1\<lparr>clock := 1000\<rparr>) \<le> millis (delay 10 (setup1\<lparr>clock := 1000\<rparr>))
 \<and> phase1.ledState (blinkLED (setup1\<lparr>clock := 500, previousBlinkTime := 4294967290\<rparr>))
 \<and> previousBlinkTime (blinkLED (setup1\<lparr>clock := 500, previousBlinkTime := 4294967290\<rparr>))
     = 500"
proof -
  let ?s = "setup1\<lparr>clock := 1000\<rparr>"
  let ?p = "setup1\<lparr>clock := 500, previousBlinkTime := 4294967290\<rparr>"
  let ?i = "\<lparr>elapsed = 0\<rparr>"
  have h1: "unat (millis ?s) + unat (10 :: ulong) < 2 ^ 32" by (simp add: millis_def)
  have h2: "millis ?p = previousBlinkTime ?p + 506" by (simp add: millis_def)
  have l: "\<not> phase1.ledState ?p" by (simp add: setup1_def)
  note T = C8_clock_modulo [of ?s 10 ?i ?p 506]
  have w1: "millis ?s \<le> millis (delay 10 ?s)"
    by (rule T [THEN conjunct1, THEN mp, OF h1])
  have w2: "phase1.ledState (blinkLED ?p)
      = (if (500 :: ulong) \<le> 506 then \<not> phase1.ledState ?p else phase1.ledState ?p)
    \<and> previousBlinkTime (blinkLED ?p)
      = (if (500 :: ulong) \<le> 506 then millis ?p else previousBlinkTime ?p)"
    by (rule T [THEN conjunct2, THEN conjunct2, THEN conjunct2, THEN mp, OF h2])
  from w2 l have w3: "phase1.ledState (blinkLED ?p)" "previousBlinkTime (blinkLED ?p) = 500"
    by (simp_all add: millis_def)
  from h1 w1 w3 show ?thesis by blast
qed

section \<open>Which passes of the loop block (C4)\<close>

lemma handleLockout_clock:
  "clock (handleLockout s)
     = clock s + (if LOCKOUT_DURATION \<le> millis s - lockoutStartTime s \<and> lcdInitialized s
                  then 2000 else 0)"
  by (simp add: handleLockout_def Let_def println_def delay_def)

lemma handleKeypadInput_other_key:
  assumes "k \<noteq> CHR ''*''"
  shows "clock (handleKeypadInput k s) = clock s"
    and "systemUnlocked (handleKeypadInput k s) = systemUnlocked s"
    and "lcdInitialized (handleKeypadInput k s) = lcdInitialized s"
  using assms
  by (simp_all add: handleKeypadInput_def Let_def autoClearEntry_fields clearEntry_fields)

lemma handleKeypadInput_lockout_lcd:
  assumes "systemLockedOut s"
  shows "lcdInitialized (handleKeypadInput k s) = lcdInitialized s"
    and "systemUnlocked (handleKeypadInput k s) = systemUnlocked s"
  using assms
  by (simp_all add: handleKeypadInput_def Let_def autoClearEntry_fields)

text \<open>The time a pass of the phase 4 security loop spends in \<open>delay\<close>, system locked.\<close>

lemma handleSecuritySystem_clock:
  assumes "\<not> systemUnlocked s" and "enteredPasscode s \<noteq> DEFAULT_PASSCODE"
  shows "clock (handleSecuritySystem i s)
    = clock s
      + (if systemLockedOut s
         then (if LOCKOUT_DURATION \<le> millis s - lockoutStartTime s \<and> lcdInitialized s
               then 2000 else 0)
         else if key i = CHR ''*'' then 1200 + (if lcdInitialized s then 2000 else 0)
         else 0)"
proof (cases "systemLockedOut s")
  case True
  let ?t = "handleKeypadInput (key i) s"
  have t: "systemLockedOut ?t" "lockoutStartTime ?t = lockoutStartTime s" "millis ?t = millis s"
    using handleKeypadInput_during_lockout [OF True] by simp_all
  have "clock (handleSecuritySystem i s) = clock (handleLockout ?t)"
    using t(1) by (simp add: handleSecuritySystem_def Let_def)
  also have "\<dots> = clock s
      + (if LOCKOUT_DURATION \<le> millis s - lockoutStartTime s \<and> lcdInitialized s
         then 2000 else 0)"
  proof -
    have ck: "clock ?t = clock s" using t(3) by (simp add: millis_def)
    show ?thesis
      by (simp add: handleLockout_clock t(2) handleKeypadInput_lockout_lcd(1) [OF True]
          ck millis_def)
  qed
  finally show ?thesis using True by simp
next
  case False
  show ?thesis
  proof (cases "key i = CHR ''*''")
    case star: True
    let ?s0 = "s\<lparr>lastKeypadActivity := millis s, lastSystemActivity := millis s\<rparr>"
    let ?t = "handleKeypadInput (key i) s"
    have t: "?t = clearEntry (denyAccess ?s0)"
      using star_key_wrong_entry [OF False assms(2)] star by simp
    have u: "\<not> systemUnlocked ?t"
      using assms(1) by (simp add: t clearEntry_fields denyAccess_fields)
    have c: "clock ?t = clock s + 1200 + (if lcdInitialized s then 2000 else 0)"
      by (simp add: t clearEntry_fields denyAccess_fields)
    have st: "systemLockedOut ?t \<Longrightarrow> lockoutStartTime ?t = millis ?t"
      using False
      by (simp add: t clearEntry_fields denyAccess_fields denyAccess_lockoutStartTime millis_def)
    have "clock (handleSecuritySystem i s) = clock ?t"
    proof (cases "systemLockedOut ?t")
      case True
      from st [OF True] have "\<not> LOCKOUT_DURATION \<le> millis ?t - lockoutStartTime ?t"
        by (simp add: LOCKOUT_DURATION_def)
      then have "handleLockout ?t = ?t" by (rule handleLockout_pending)
      with True show ?thesis by (simp add: handleSecuritySystem_def Let_def)
    next
      case False
      with u show ?thesis by (simp add: handleSecuritySystem_def Let_def)
    qed
    with c False star show ?thesis by simp
  next
    case other: False
    let ?t = "handleKeypadInput (key i) s"
    have "\<not> systemLockedOut ?t" "\<not> systemUnlocked ?t" "clock ?t = clock s"
      using False assms(1) other_key_counter [OF other, of s]
        handleKeypadInput_other_key [OF other, of s]
      by simp_all
    then have "clock (handleSecuritySystem i s) = clock s"
      by (simp add: handleSecuritySystem_def Let_def)
    with False other show ?thesis by simp
  qed
qed

lemma setup4_fields:
  "\<not> systemUnlocked (setup4 power_on4)" "\<not> systemLockedOut (setup4 power_on4)"
  "enteredPasscode (setup4 power_on4) = []" "lcdInitialized (setup4 power_on4)"
  "clock (setup4 power_on4) = 1000" "failedAttempts (setup4 power_on4) = 0"
  by (simp_all add: setup4_def power_on4_def initializeLCD_def delay_def millis_def Let_def)

text \<open>
  C4. That no activity blocks the main loop fails on the code: the pass of the phase 4
  security loop in which the asterisk key confirms a wrong entry (here the empty one,
  right after \<open>setup()\<close>) spends 3200 ms in \<open>delay\<close>, for the red LED blinks and the
  "ACCESS DENIED" message of \<open>denyAccess\<close>; and the quarter turn \<open>stepMotor(1024, 1)\<close> of
  phase 5 spends 1124 ms in \<open>delayMicroseconds\<close> before it returns. Nothing else runs in
  that time.
\<close>

theorem C4_blocking_counterexample:
  "clock (handleSecuritySystem
      \<lparr>elapsed = 0, key = CHR ''*'', dhtTemperature = NaN, dhtHumidity = NaN, echo = 0,
       water = 0\<rparr> (setup4 power_on4))
     = clock (setup4 power_on4) + 3200
 \<and> clock (stepMotor 1024 1 (setup5 power_on5)) = clock (setup5 power_on5) + 1124"
proof -
  let ?i = "\<lparr>elapsed = 0, key = CHR ''*'', dhtTemperature = NaN, dhtHumidity = NaN, echo = 0,
       water = 0\<rparr>"
  have e: "enteredPasscode (setup4 power_on4) \<noteq> DEFAULT_PASSCODE"
    by (simp add: setup4_fields DEFAULT_PASSCODE_def)
  have a: "clock (handleSecuritySystem ?i (setup4 power_on4)) = clock (setup4 power_on4) + 3200"
    unfolding handleSecuritySystem_clock [OF setup4_fields(1) e]
    by (simp add: setup4_fields)
  have h: "(0 :: int) \<le> 1024" "(50 :: int) = min (1024 div 4) 50" "(924 :: int) = 1024 - 50 - 50"
    "(1 :: int) = (if (1 :: int) > 0 then 1 else - 1)"
    by simp_all
  have b: "clock (stepMotor 1024 1 (setup5 power_on5)) = clock (setup5 power_on5) + 1124"
    unfolding stepMotor_effect(3) [OF setup5_motor(1) h] by simp
  from a b show ?thesis by simp
qed

text \<open>
  Which passes block, and for how long. In phase 4, a pass of the security loop (system
  locked, as it always is) spends time in \<open>delay\<close> in two cases only: when the asterisk
  key confirms an entry outside a lockout (1200 ms of red blinks, and 2000 ms of message
  if the LCD is initialised), and when a lockout has lasted 30000 ms and ends (2000 ms
  of message if the LCD is initialised); every other pass returns without delay. In
  phase 5, \<open>stepMotor\<close> returns only when the whole movement is done: 2 ms for every
  acceleration and deceleration step and 1 ms for every constant-speed step.
\<close>

theorem blocking_passes:
  "(\<not> systemUnlocked p \<and> enteredPasscode p \<noteq> DEFAULT_PASSCODE \<longrightarrow>
      clock (handleSecuritySystem i p)
        = clock p
          + (if systemLockedOut p
             then (if 30000 \<le> millis p - lockoutStartTime p \<and> lcdInitialized p
                   then 2000 else 0)
             else if key i = CHR ''*'' then 1200 + (if lcdInitialized p then 2000 else 0)
             else 0))
 \<and> (\<not> motorMoving s \<and> 0 \<le> steps \<and> a = min (steps div 4) 50 \<longrightarrow>
      clock (stepMotor steps direction s)
        = clock s + word_of_int (2 * a + (steps - a - a) + 2 * a))"
proof -
  have p2: "clock (stepMotor steps direction s)
        = clock s + word_of_int (2 * a + (steps - a - a) + 2 * a)"
    if "\<not> motorMoving s" "0 \<le> steps" "a = min (steps div 4) 50"
    by (rule stepMotor_effect(3) [OF that refl refl])
  from handleSecuritySystem_clock [of p i] p2 show ?thesis
    by (simp add: LOCKOUT_DURATION_def)
qed

text \<open>
  After \<open>setup()\<close>, for instance: a pass with the key 5 takes no time, and ten motor
  steps (2 + 6 + 2) take 14 ms.
\<close>

theorem blocking_passes_example:
  "\<not> systemUnlocked (setup4 power_on4)
 \<and> enteredPasscode (setup4 power_on4) \<noteq> DEFAULT_PASSCODE
 \<and> clock (handleSecuritySystem
      \<lparr>elapsed = 0, key = CHR ''5'', dhtTemperature = NaN, dhtHumidity = NaN, echo = 0,
       water = 0\<rparr> (setup4 power_on4))
     = clock (setup4 power_on4)
 \<and> \<not> motorMoving (setup5 power_on5)
 \<and> clock (stepMotor 10 1 (setup5 power_on5)) = clock (setup5 power_on5) + 14"
proof -
  let ?i = "\<lparr>elapsed = 0, key = CHR ''5'', dhtTemperature = NaN, dhtHumidity = NaN, echo = 0,
       water = 0\<rparr>"
  have h1: "\<not> systemUnlocked (setup4 power_on4)
      \<and> enteredPasscode (setup4 power_on4) \<noteq> DEFAULT_PASSCODE"
    by (simp add: setup4_fields DEFAULT_PASSCODE_def)
  have h2: "\<not> motorMoving (setup5 power_on5) \<and> (0 :: int) \<le> 10 \<and> (2 :: int) = min (10 div 4) 50"
    by (simp add: setup5_motor)
  note T = blocking_passes [of "setup4 power_on4" ?i "setup5 power_on5" 10 2 1]
  have w1: "clock (handleSecuritySystem ?i (setup4 power_on4)) = clock (setup4 power_on4)"
    using T [THEN conjunct1, THEN mp, OF h1] by (simp add: setup4_fields)
  have w2: "clock (stepMotor 10 1 (setup5 power_on5)) = clock (setup5 power_on5) + 14"
    using T [THEN conjunct2, THEN mp, OF h2] by simp
  from h1 h2 w1 w2 show ?thesis by blast
qed

end
